theory Spec2Isabelle
  imports Complex_Main "HOL-Library.Multiset"
begin

section \<open>Values and exceptions\<close>

text \<open>
  The pipelines of \<^verbatim>\<open>main.py\<close> and \<^verbatim>\<open>data_loader.py\<close> exchange JSON with the
  Bedrock runtime: a request body is built with \<^verbatim>\<open>json.dumps\<close>, a response body is read
  with \<^verbatim>\<open>json.loads\<close>. The model works on the JSON value itself; numbers are
  rationals (the embedding components and the temperature are never computed with).
  An object is an association list read with \<open>map_of\<close>.
\<close>

datatype json =
    JNull
  | JBool bool
  | JNum rat
  | JStr string
  | JArr "json list"
  | JObj "(string \<times> json) list"

text \<open>
  The exceptions the Python code can raise. \<open>ClientError\<close> is whatever the Bedrock
  client raises (transport, throttling, validation, an unreadable body), \<open>LoadError\<close>
  what the PDF reader raises, \<open>StoreError\<close> what the vector store raises; the others
  are Python's own.
\<close>

datatype exn =
    ClientError string
  | LoadError string
  | StoreError string
  | AttributeError
  | TypeError
  | KeyError
  | IndexError
  | ValidationError

subsection \<open>The Python operations the code applies to JSON values\<close>

text \<open>\<^verbatim>\<open>x.get(key, default)\<close>: defined on a dict only.\<close>

fun py_get :: "json \<Rightarrow> string \<Rightarrow> json \<Rightarrow> exn + json" where
  "py_get (JObj kvs) k d = Inr (case map_of kvs k of None \<Rightarrow> d | Some v \<Rightarrow> v)"
| "py_get _ k d = Inl AttributeError"

text \<open>
  \<^verbatim>\<open>x[0]\<close>: the first element of a list or the first character of a string
  (IndexError when empty); on a dict the key \<open>0\<close> is looked up, and a dict read
  from JSON has string keys only (KeyError); anything else is not subscriptable.
\<close>

fun py_index0 :: "json \<Rightarrow> exn + json" where
  "py_index0 (JArr []) = Inl IndexError"
| "py_index0 (JArr (x # xs)) = Inr x"
| "py_index0 (JStr []) = Inl IndexError"
| "py_index0 (JStr (c # cs)) = Inr (JStr [c])"
| "py_index0 (JObj kvs) = Inl KeyError"
| "py_index0 _ = Inl TypeError"

text \<open>
  \<^verbatim>\<open>str.strip()\<close> removes the leading and trailing whitespace characters: among
  the code points below 256 these are the ones listed.
\<close>

definition is_space :: "char \<Rightarrow> bool" where
  "is_space c = (c \<in> set [CHR 0x09, CHR 0x0A, CHR 0x0B, CHR 0x0C, CHR 0x0D,
       CHR 0x1C, CHR 0x1D, CHR 0x1E, CHR 0x1F, CHR 0x20, CHR 0x85, CHR 0xA0])"

definition strip :: "string \<Rightarrow> string" where
  "strip s = rev (dropWhile is_space (rev (dropWhile is_space s)))"

fun py_strip :: "json \<Rightarrow> exn + string" where
  "py_strip (JStr s) = Inr (strip s)"
| "py_strip _ = Inl AttributeError"

text \<open>\<^verbatim>\<open>sep.join(xs)\<close>.\<close>

fun join :: "string \<Rightarrow> string list \<Rightarrow> string" where
  "join sep [] = []"
| "join sep [x] = x"
| "join sep (x # y # ys) = x @ sep @ join sep (y # ys)"

text \<open>\<^verbatim>\<open>str(i)\<close> of a non-negative integer: its decimal digits.\<close>

definition digit_char :: "nat \<Rightarrow> char" where
  "digit_char d = ''0123456789'' ! d"

fun str_nat :: "nat \<Rightarrow> string" where
  "str_nat n = (if n < 10 then [digit_char n] else str_nat (n div 10) @ [digit_char (n mod 10)])"

declare str_nat.simps [simp del]

section \<open>The environment and the world\<close>

text \<open>
  What the code calls and does not define is a field of the environment:
  \<^item> \<open>bedrock\<close>: the Bedrock runtime behind \<^verbatim>\<open>bedrock_client.invoke_model\<close>. Its answer
    to a call may depend on the calls made before (quota, outages), so it takes the log
    of earlier calls, the model id and the request body, and returns the parsed response
    body or the exception raised on the way to it;
  \<^item> \<open>uuid5_url\<close>: \<^verbatim>\<open>str(uuid.uuid5(uuid.NAMESPACE_URL, name))\<close> of the standard library;
  \<^item> \<open>pdf_reader\<close>: \<^verbatim>\<open>PDFReader().load_data(file=path)\<close>, the \<^verbatim>\<open>text\<close> attribute of each
    document read (\<open>None\<close> when it has none) or the exception raised;
  \<^item> \<open>split_text\<close>: \<^verbatim>\<open>SentenceSplitter(chunk_size=1000, chunk_overlap=200).split_text\<close>;
  \<^item> \<open>similarity\<close>: the vector store's similarity metric;
  \<^item> \<open>store_fault\<close>: whether the vector store fails the call it receives after the
    given number of earlier calls.
\<close>

record 's env =
  bedrock :: "(string \<times> json) list \<Rightarrow> string \<Rightarrow> json \<Rightarrow> exn + json"
  uuid5_url :: "string \<Rightarrow> string"
  pdf_reader :: "string \<Rightarrow> exn + string option list"
  split_text :: "string \<Rightarrow> string list"
  similarity :: "json \<Rightarrow> json \<Rightarrow> 's"
  store_fault :: "nat \<Rightarrow> exn option"

text \<open>
  The payload stored with a vector is the dict \<^verbatim>\<open>{"source": source_id, "text": chunk}\<close>;
  \<open>chunk_text\<close> is its \<^verbatim>\<open>text\<close> entry.
\<close>

record payload =
  source :: string
  chunk_text :: string

text \<open>A record of the vector store: the spec's IndexRecord.\<close>

record index_record =
  rec_id :: string
  vector :: json
  rec_payload :: payload

datatype store_call =
    Upsert "string list" "json list" "payload list"
  | Search json int

text \<open>
  The outputs of the durable steps: \<^verbatim>\<open>RAGChunkAndSrc(chunks, source_id)\<close>,
  \<^verbatim>\<open>RAGUpsertResult(ingested)\<close>, \<^verbatim>\<open>RAGSearchResult(contexts, sources)\<close> of
  \<^verbatim>\<open>custom_types\<close>, and the raw JSON the answering step returns. \<open>NoResult\<close> is the
  result field of a step record that holds none yet.
\<close>

datatype step_value =
    NoResult
  | RAGChunkAndSrc "string list" string
  | RAGUpsertResult nat
  | RAGSearchResult "string list" "string list"
  | RawJson json

datatype step_status = Pending | Succeeded | Failed

record step_record =
  status :: step_status
  result :: step_value
  attempt :: nat

text \<open>
  Everything outside the process that the code reads or changes: the log of the calls made
  to Bedrock (model id and request body), the paths given to the PDF reader, the calls
  made to the vector store, the records the store holds, and the step records of the
  workflow engine, keyed by run id and step name.
\<close>

record world =
  bedrock_log :: "(string \<times> json) list"
  pdf_log :: "string list"
  store_log :: "store_call list"
  records :: "index_record list"
  steps :: "string \<times> string \<Rightarrow> step_record option"

section \<open>data_loader.py\<close>

definition EMBED_MODEL :: string where
  "EMBED_MODEL = ''amazon.titan-embed-text-v2:0''"

text \<open>\<^verbatim>\<open>bedrock_client.invoke_model\<close>: the call is logged, whatever its outcome.\<close>

definition invoke_model ::
  "'s env \<Rightarrow> string \<Rightarrow> json \<Rightarrow> world \<Rightarrow> (exn + json) \<times> world" where
  "invoke_model env modelId body w =
     (bedrock env (bedrock_log w) modelId body,
      w\<lparr>bedrock_log := bedrock_log w @ [(modelId, body)]\<rparr>)"

text \<open>
  \<^verbatim>\<open>load_and_chunk_pdf\<close>: the documents with a non-empty text are split one by one and
  the chunks are collected in order.
\<close>

definition load_and_chunk_pdf ::
  "'s env \<Rightarrow> string \<Rightarrow> world \<Rightarrow> (exn + string list) \<times> world" where
  "load_and_chunk_pdf env path w =
     (let w' = w\<lparr>pdf_log := pdf_log w @ [path]\<rparr> in
      case pdf_reader env path of
        Inl e \<Rightarrow> (Inl e, w')
      | Inr docs \<Rightarrow>
          (let texts = concat (map (\<lambda>d. case d of None \<Rightarrow> [] | Some t \<Rightarrow> if t = [] then [] else [t]) docs)
           in (Inr (concat (map (split_text env) texts)), w')))"

text \<open>The request body of one embedding call, \<^verbatim>\<open>{"inputText": text}\<close>.\<close>

definition embed_body :: "string \<Rightarrow> json" where
  "embed_body t = JObj [(''inputText'', JStr t)]"

text \<open>
  The body of the loop of \<^verbatim>\<open>embed_texts\<close>: one call, then
  \<^verbatim>\<open>response_body.get("embedding")\<close>, which is \<^verbatim>\<open>None\<close> when the field is missing.
\<close>

definition embed_one :: "'s env \<Rightarrow> string \<Rightarrow> world \<Rightarrow> (exn + json) \<times> world" where
  "embed_one env t w =
     (case invoke_model env EMBED_MODEL (embed_body t) w of
        (Inl e, w') \<Rightarrow> (Inl e, w')
      | (Inr response_body, w') \<Rightarrow>
          (case py_get response_body ''embedding'' JNull of
             Inl e \<Rightarrow> (Inl e, w')
           | Inr embedding \<Rightarrow> (Inr embedding, w')))"

fun embed_loop ::
  "'s env \<Rightarrow> string list \<Rightarrow> json list \<Rightarrow> world \<Rightarrow> (exn + json list) \<times> world" where
  "embed_loop env [] all_embeddings w = (Inr all_embeddings, w)"
| "embed_loop env (t # ts) all_embeddings w =
     (case embed_one env t w of
        (Inl e, w') \<Rightarrow> (Inl e, w')
      | (Inr embedding, w') \<Rightarrow> embed_loop env ts (all_embeddings @ [embedding]) w')"

definition embed_texts ::
  "'s env \<Rightarrow> string list \<Rightarrow> world \<Rightarrow> (exn + json list) \<times> world" where
  "embed_texts env texts w = embed_loop env texts [] w"

text \<open>The world after the embedding calls for the texts \<open>ts\<close> have been made from \<open>w\<close>.\<close>

definition after_embedding :: "world \<Rightarrow> string list \<Rightarrow> world" where
  "after_embedding w ts =
     w\<lparr>bedrock_log := bedrock_log w @ map (\<lambda>t. (EMBED_MODEL, embed_body t)) ts\<rparr>"

section \<open>The vector store\<close>

text \<open>
  Modelled from the spec: \<^verbatim>\<open>vector_db.py\<close> (the class \<^verbatim>\<open>QdrantStorage\<close> that
  \<^verbatim>\<open>main.py\<close> imports) is not among the sources. Section 4.3 of the spec gives its
  contract: \<^verbatim>\<open>upsert\<close> writes each record under its id, a later write to the same id
  replacing the earlier one (last write wins, no versioning); \<^verbatim>\<open>search\<close> returns the
  \<^verbatim>\<open>topK\<close> records nearest to the query under the store's similarity metric, ranked
  descending by score, and whatever exists when fewer are stored; a fault surfaces as a
  failure and is not swallowed. A search result is a sequence of (text, source, score),
  handed back projected to the texts and the sources, order-aligned (section 4.7): the
  dict whose entries \<^verbatim>\<open>contexts\<close> and \<^verbatim>\<open>sources\<close> the query reads.
\<close>

text \<open>
  Modelled from the spec: one write of \<^verbatim>\<open>vector_db.py\<close>'s upsert, per section 4.3: the
  record replaces the one stored under its id, or is added when the id is new.
\<close>

fun put_record :: "index_record \<Rightarrow> index_record list \<Rightarrow> index_record list" where
  "put_record r [] = [r]"
| "put_record r (x # xs) = (if rec_id x = rec_id r then r # xs else x # put_record r xs)"

text \<open>
  Modelled from the spec: the records an \<^verbatim>\<open>upsert\<close> call of \<^verbatim>\<open>vector_db.py\<close> builds
  from the three lists it receives, position by position (spec, section 3: IndexRecord).
\<close>

definition index_records :: "string list \<Rightarrow> json list \<Rightarrow> payload list \<Rightarrow> index_record list" where
  "index_records ids vecs payloads =
     map (\<lambda>(i, v, p). \<lparr>rec_id = i, vector = v, rec_payload = p\<rparr>) (zip ids (zip vecs payloads))"

text \<open>
  Modelled from the spec: \<^verbatim>\<open>QdrantStorage().upsert(ids, vecs, payloads)\<close> of
  \<^verbatim>\<open>vector_db.py\<close>, per section 4.3: the call is logged; a fault surfaces; otherwise
  every record is written under its id, replacing what the id held.
\<close>

definition qdrant_upsert ::
  "'s env \<Rightarrow> string list \<Rightarrow> json list \<Rightarrow> payload list \<Rightarrow> world \<Rightarrow> (exn + unit) \<times> world" where
  "qdrant_upsert env ids vecs payloads w =
     (let w' = w\<lparr>store_log := store_log w @ [Upsert ids vecs payloads]\<rparr> in
      case store_fault env (length (store_log w)) of
        Some e \<Rightarrow> (Inl e, w')
      | None \<Rightarrow>
          (Inr (), w'\<lparr>records := fold put_record (index_records ids vecs payloads) (records w)\<rparr>))"

text \<open>
  Modelled from the spec: the ranking behind \<^verbatim>\<open>QdrantStorage().search\<close> of
  \<^verbatim>\<open>vector_db.py\<close>, per section 4.3: every record scored by its similarity to the
  query, the scores descending, the first \<^verbatim>\<open>top_k\<close> kept.
\<close>

definition hit_score :: "string \<times> string \<times> 's \<Rightarrow> 's" where
  "hit_score h = snd (snd h)"

definition scored :: "'s env \<Rightarrow> json \<Rightarrow> index_record list \<Rightarrow> (string \<times> string \<times> 's) list" where
  "scored env query_vec recs =
     map (\<lambda>r. (chunk_text (rec_payload r), source (rec_payload r),
                similarity env query_vec (vector r))) recs"

definition ranked ::
  "('s::linorder) env \<Rightarrow> json \<Rightarrow> index_record list \<Rightarrow> (string \<times> string \<times> 's) list" where
  "ranked env query_vec recs = rev (sort_key hit_score (scored env query_vec recs))"

definition search_hits ::
  "('s::linorder) env \<Rightarrow> json \<Rightarrow> int \<Rightarrow> index_record list \<Rightarrow> (string \<times> string \<times> 's) list" where
  "search_hits env query_vec top_k recs = take (nat top_k) (ranked env query_vec recs)"

text \<open>
  Modelled from the spec: \<^verbatim>\<open>QdrantStorage().search(query_vec, top_k)\<close> of
  \<^verbatim>\<open>vector_db.py\<close>, per sections 4.3 and 4.7: the call is logged; a fault surfaces;
  otherwise the texts and the sources of the hits are returned, in rank order.
\<close>

definition qdrant_search ::
  "('s::linorder) env \<Rightarrow> json \<Rightarrow> int \<Rightarrow> world \<Rightarrow> (exn + string list \<times> string list) \<times> world" where
  "qdrant_search env query_vec top_k w =
     (let w' = w\<lparr>store_log := store_log w @ [Search query_vec top_k]\<rparr> in
      case store_fault env (length (store_log w)) of
        Some e \<Rightarrow> (Inl e, w')
      | None \<Rightarrow>
          (let hits = search_hits env query_vec top_k (records w)
           in (Inr (map fst hits, map (\<lambda>h. fst (snd h)) hits), w')))"

section \<open>The step executor\<close>

text \<open>
  Modelled from the spec: \<^verbatim>\<open>ctx.step.run\<close> belongs to the workflow library that
  \<^verbatim>\<open>main.py\<close> imports, which is not among the sources. Section 4.5 of the spec gives its
  behaviour: look up the step record of (run id, step name); if its status is
  succeeded, return the cached result and do not invoke the function; otherwise invoke
  it, and on success persist the status succeeded with the value and return it, on
  failure persist the status failed with the attempt counted and propagate the error.
\<close>

text \<open>
  Modelled from the spec: the step record of a run's step, pending with no result and
  no attempt when none has been persisted (section 3: Step Record).
\<close>

definition step_record_of :: "world \<Rightarrow> string \<Rightarrow> string \<Rightarrow> step_record" where
  "step_record_of w run_id step_name =
     (case steps w (run_id, step_name) of
        None \<Rightarrow> \<lparr>status = Pending, result = NoResult, attempt = 0\<rparr>
      | Some r \<Rightarrow> r)"

text \<open>
  Modelled from the spec: \<^verbatim>\<open>ctx.step.run(step_name, fn)\<close> of the workflow library, for
  the run \<open>run_id\<close>, per section 4.5.
\<close>

definition step_run ::
  "string \<Rightarrow> string \<Rightarrow> (world \<Rightarrow> (exn + step_value) \<times> world) \<Rightarrow> world
     \<Rightarrow> (exn + step_value) \<times> world" where
  "step_run run_id step_name fn w =
     (let r = step_record_of w run_id step_name in
      if status r = Succeeded then (Inr (result r), w)
      else
        (case fn w of
           (Inr v, w') \<Rightarrow>
             (Inr v, w'\<lparr>steps := (steps w')((run_id, step_name) \<mapsto>
                                   r\<lparr>status := Succeeded, result := v\<rparr>)\<rparr>)
         | (Inl e, w') \<Rightarrow>
             (Inl e, w'\<lparr>steps := (steps w')((run_id, step_name) \<mapsto>
                                   r\<lparr>status := Failed, attempt := attempt r + 1\<rparr>)\<rparr>)))"

section \<open>main.py: the ingest pipeline\<close>

text \<open>
  A step's function, and \<^verbatim>\<open>ctx.step.run\<close>: the pipelines receive it with their context
  and hand it the name and the function of each step.
\<close>

type_synonym step_fn = "world \<Rightarrow> (exn + step_value) \<times> world"

type_synonym step_runner = "string \<Rightarrow> step_fn \<Rightarrow> step_fn"

text \<open>The data of the triggering events; a key the event does not carry is \<open>None\<close>.\<close>

record ingest_event =
  data_pdf_path :: "string option"
  data_source_id :: "string option"

record query_event =
  data_question :: "string option"
  data_top_k :: "int option"

text \<open>\<^verbatim>\<open>_load\<close> of \<^verbatim>\<open>rag_ingest_pdf\<close>.\<close>

definition ingest_load :: "'s env \<Rightarrow> ingest_event \<Rightarrow> world \<Rightarrow> (exn + step_value) \<times> world" where
  "ingest_load env ev w =
     (case data_pdf_path ev of
        None \<Rightarrow> (Inl KeyError, w)
      | Some path \<Rightarrow>
          (let sid = (case data_source_id ev of None \<Rightarrow> path | Some s \<Rightarrow> s) in
           case load_and_chunk_pdf env path w of
             (Inl e, w') \<Rightarrow> (Inl e, w')
           | (Inr chunks, w') \<Rightarrow> (Inr (RAGChunkAndSrc chunks sid), w')))"

text \<open>
  The ids and the payloads that \<^verbatim>\<open>_upsert\<close> computes: one per index in
  \<^verbatim>\<open>range(len(chunks))\<close>.
\<close>

definition chunk_ids :: "'s env \<Rightarrow> string \<Rightarrow> string list \<Rightarrow> string list" where
  "chunk_ids env sid chunks =
     map (\<lambda>i. uuid5_url env (sid @ '':'' @ str_nat i)) [0..<length chunks]"

definition chunk_payloads :: "string \<Rightarrow> string list \<Rightarrow> payload list" where
  "chunk_payloads sid chunks =
     map (\<lambda>i. \<lparr>source = sid, chunk_text = chunks ! i\<rparr>) [0..<length chunks]"

text \<open>\<^verbatim>\<open>_upsert\<close> of \<^verbatim>\<open>rag_ingest_pdf\<close>.\<close>

definition ingest_upsert ::
  "'s env \<Rightarrow> string list \<Rightarrow> string \<Rightarrow> world \<Rightarrow> (exn + step_value) \<times> world" where
  "ingest_upsert env chunks sid w =
     (case embed_texts env chunks w of
        (Inl e, w1) \<Rightarrow> (Inl e, w1)
      | (Inr vecs, w1) \<Rightarrow>
          (case qdrant_upsert env (chunk_ids env sid chunks) vecs (chunk_payloads sid chunks) w1 of
             (Inl e, w2) \<Rightarrow> (Inl e, w2)
           | (Inr u, w2) \<Rightarrow> (Inr (RAGUpsertResult (length chunks)), w2)))"

text \<open>
  \<^verbatim>\<open>rag_ingest_pdf\<close>: two steps run through \<^verbatim>\<open>ctx.step.run\<close>, the second fed with the
  output of the first read as a \<^verbatim>\<open>RAGChunkAndSrc\<close>. The value returned stands for the
  dict \<^verbatim>\<open>{"ingested": n}\<close>.
\<close>

definition rag_ingest_pdf ::
  "'s env \<Rightarrow> step_runner \<Rightarrow> ingest_event \<Rightarrow> world \<Rightarrow> (exn + nat) \<times> world" where
  "rag_ingest_pdf env run ev w =
     (case run ''load-and-chunk'' (ingest_load env ev) w of
        (Inl e, w1) \<Rightarrow> (Inl e, w1)
      | (Inr (RAGChunkAndSrc chunks sid), w1) \<Rightarrow>
          (case run ''embed-and-upsert'' (ingest_upsert env chunks sid) w1 of
             (Inl e, w2) \<Rightarrow> (Inl e, w2)
           | (Inr (RAGUpsertResult n), w2) \<Rightarrow> (Inr n, w2)
           | (Inr _, w2) \<Rightarrow> (Inl ValidationError, w2))
      | (Inr _, w1) \<Rightarrow> (Inl ValidationError, w1))"

section \<open>main.py: the query pipeline\<close>

text \<open>
  \<^verbatim>\<open>_search\<close> of \<^verbatim>\<open>rag_query_pdf_ai\<close>: the question is embedded as a batch of one, the
  store is searched, and \<^verbatim>\<open>found["contexts"]\<close> and \<^verbatim>\<open>found["sources"]\<close> are handed on.
\<close>

definition query_search ::
  "('s::linorder) env \<Rightarrow> string \<Rightarrow> int \<Rightarrow> world \<Rightarrow> (exn + step_value) \<times> world" where
  "query_search env q k w =
     (case embed_texts env [q] w of
        (Inl e, w1) \<Rightarrow> (Inl e, w1)
      | (Inr [], w1) \<Rightarrow> (Inl IndexError, w1)
      | (Inr (query_vec # _), w1) \<Rightarrow>
          (case qdrant_search env query_vec k w1 of
             (Inl e, w2) \<Rightarrow> (Inl e, w2)
           | (Inr found, w2) \<Rightarrow> (Inr (RAGSearchResult (fst found) (snd found)), w2)))"

definition LLM_MODEL :: string where
  "LLM_MODEL = ''anthropic.claude-3-haiku-20240307-v1:0''"

definition user_content :: "string \<Rightarrow> string \<Rightarrow> string" where
  "user_content context_block q =
     ''Use the following context to answer the question. \<newline>\<newline>'' @
     ''Context:\<newline>'' @ context_block @ ''\<newline>\<newline>'' @
     ''Question: '' @ q @ ''\<newline>'' @
     ''Answer concisely using the context above.''"

definition llm_body :: "string \<Rightarrow> string \<Rightarrow> json" where
  "llm_body context_block q =
     JObj [(''anthropic_version'', JStr ''bedrock-2023-05-31''),
           (''max_tokens'', JNum 1024),
           (''temperature'', JNum (2 / 10)),
           (''system'', JStr ''You answer questions using only the provided context.''),
           (''messages'', JArr [JObj [(''role'', JStr ''user''),
                                      (''content'', JStr (user_content context_block q))]])]"

text \<open>\<^verbatim>\<open>_invoke_llm\<close> of \<^verbatim>\<open>rag_query_pdf_ai\<close>.\<close>

definition query_invoke_llm ::
  "'s env \<Rightarrow> string \<Rightarrow> string \<Rightarrow> world \<Rightarrow> (exn + step_value) \<times> world" where
  "query_invoke_llm env context_block q w =
     (case invoke_model env LLM_MODEL (llm_body context_block q) w of
        (Inl e, w') \<Rightarrow> (Inl e, w')
      | (Inr res, w') \<Rightarrow> (Inr (RawJson res), w'))"

text \<open>\<^verbatim>\<open>"\n\n".join(f"- {c}" for c in found.contexts)\<close>.\<close>

definition context_block_of :: "string list \<Rightarrow> string" where
  "context_block_of contexts = join ''\<newline>\<newline>'' (map (\<lambda>c. ''- '' @ c) contexts)"

text \<open>\<^verbatim>\<open>res.get("content", [{}])[0].get("text", "").strip()\<close>.\<close>

definition extract_answer :: "json \<Rightarrow> exn + string" where
  "extract_answer res =
     (case py_get res ''content'' (JArr [JObj []]) of
        Inl e \<Rightarrow> Inl e
      | Inr content \<Rightarrow>
          (case py_index0 content of
             Inl e \<Rightarrow> Inl e
           | Inr item \<Rightarrow>
               (case py_get item ''text'' (JStr []) of
                  Inl e \<Rightarrow> Inl e
                | Inr t \<Rightarrow> py_strip t)))"

record query_result =
  answer :: string
  sources :: "string list"
  num_contexts :: nat

text \<open>
  \<^verbatim>\<open>rag_query_pdf_ai\<close>: \<^verbatim>\<open>top_k\<close> defaults to 5; the context block is assembled between
  the two steps; the answer is read from the response of the second.
\<close>

definition rag_query_pdf_ai ::
  "('s::linorder) env \<Rightarrow> step_runner \<Rightarrow> query_event \<Rightarrow> world \<Rightarrow> (exn + query_result) \<times> world" where
  "rag_query_pdf_ai env run ev w =
     (case data_question ev of
        None \<Rightarrow> (Inl KeyError, w)
      | Some q \<Rightarrow>
          (let k = (case data_top_k ev of None \<Rightarrow> 5 | Some k \<Rightarrow> k) in
           case run ''embed-and-search'' (query_search env q k) w of
             (Inl e, w1) \<Rightarrow> (Inl e, w1)
           | (Inr (RAGSearchResult contexts srcs), w1) \<Rightarrow>
               (case run ''llm-answer-bedrock''
                       (query_invoke_llm env (context_block_of contexts) q) w1 of
                  (Inl e, w2) \<Rightarrow> (Inl e, w2)
                | (Inr (RawJson res), w2) \<Rightarrow>
                    (case extract_answer res of
                       Inl e \<Rightarrow> (Inl e, w2)
                     | Inr a \<Rightarrow>
                         (Inr \<lparr>answer = a, sources = srcs, num_contexts = length contexts\<rparr>, w2))
                | (Inr _, w2) \<Rightarrow> (Inl ValidationError, w2))
           | (Inr _, w1) \<Rightarrow> (Inl ValidationError, w1)))"

section \<open>A concrete environment\<close>

text \<open>
  An environment and a world to run the model on. The embedding model answers a text
  with a one-component vector (the length of the text) and refuses the text
  \<open>boom\<close>; the answering model returns a fixed answer padded with blanks; every call
  whose number (the calls made before it) is listed in \<open>down\<close> meets an outage. The
  reader knows two files; the splitter makes one chunk of a text; the similarity of two
  one-component vectors is the negated distance of the components.
\<close>

definition demo_embedding :: "json \<Rightarrow> exn + json" where
  "demo_embedding body =
     (case body of
        JObj [(k, JStr t)] \<Rightarrow>
          if t = ''boom'' then Inl (ClientError ''ValidationException'')
          else Inr (JObj [(''embedding'', JArr [JNum (of_nat (length t))])])
      | _ \<Rightarrow> Inl (ClientError ''ValidationException''))"

definition demo_answer :: json where
  "demo_answer = JObj [(''content'', JArr [JObj [(''type'', JStr ''text''), (''text'', JStr '' Paris. '')]])]"

definition demo_bedrock :: "nat list \<Rightarrow> json \<Rightarrow> (string \<times> json) list \<Rightarrow> string \<Rightarrow> json \<Rightarrow> exn + json" where
  "demo_bedrock down reply calls modelId body =
     (if length calls \<in> set down then Inl (ClientError ''ServiceUnavailableException'')
      else if modelId = EMBED_MODEL then demo_embedding body
      else Inr reply)"

definition demo_similarity :: "json \<Rightarrow> json \<Rightarrow> rat" where
  "demo_similarity a b =
     (case (a, b) of
        (JArr [JNum x], JArr [JNum y]) \<Rightarrow> - \<bar>x - y\<bar>
      | _ \<Rightarrow> 0)"

definition demo_reader :: "string \<Rightarrow> exn + string option list" where
  "demo_reader path =
     (if path = ''doc.pdf'' then Inr [Some ''Alpha.'', None, Some [], Some ''Beta gamma.'']
      else if path = ''blank.pdf'' then Inr [Some [], None]
      else Inl (LoadError ''no such file''))"

definition demo_env :: "nat list \<Rightarrow> json \<Rightarrow> rat env" where
  "demo_env down reply =
     \<lparr>bedrock = demo_bedrock down reply,
      uuid5_url = (\<lambda>name. ''urn:uuid:'' @ name),
      pdf_reader = demo_reader,
      split_text = (\<lambda>t. [t]),
      similarity = demo_similarity,
      store_fault = (\<lambda>n. None)\<rparr>"

definition world0 :: world where
  "world0 = \<lparr>bedrock_log = [], pdf_log = [], store_log = [], records = [], steps = Map.empty\<rparr>"

section \<open>Embedding a batch\<close>

lemma after_embedding_Nil: "after_embedding w [] = w"
  by (simp add: after_embedding_def)

lemma after_embedding_append:
  "after_embedding (after_embedding w xs) ys = after_embedding w (xs @ ys)"
  by (simp add: after_embedding_def)

lemma snd_embed_one: "snd (embed_one env t w) = after_embedding w [t]"
  by (simp add: embed_one_def invoke_model_def after_embedding_def split: sum.splits)

text \<open>
  The loop returns a list exactly when every call, made in the world its predecessors
  left, yields a value; the list is the accumulator followed by these values in order.
\<close>

lemma embed_loop_Inr:
  "embed_loop env ts acc w = (Inr vecs, w') \<longleftrightarrow>
     (\<exists>vs. vecs = acc @ vs \<and> length vs = length ts \<and> w' = after_embedding w ts \<and>
        (\<forall>i<length ts. fst (embed_one env (ts ! i) (after_embedding w (take i ts))) = Inr (vs ! i)))"
proof (induction ts arbitrary: acc w vecs)
  case Nil
  then show ?case by (auto simp: after_embedding_Nil)
next
  case (Cons t ts)
  obtain r w1 where r: "embed_one env t w = (r, w1)" by (cases "embed_one env t w")
  have w1: "w1 = after_embedding w [t]" using snd_embed_one[of env t w] r by simp
  show ?case
  proof (cases r)
    case (Inl e)
    have "\<not> (\<forall>i<length (t # ts). fst (embed_one env ((t # ts) ! i) (after_embedding w (take i (t # ts)))) = Inr (vs ! i))" for vs
      using r Inl by (auto intro!: exI[of _ 0] simp: after_embedding_Nil)
    then show ?thesis using r Inl by auto
  next
    case (Inr v)
    have step: "embed_loop env (t # ts) acc w = embed_loop env ts (acc @ [v]) w1"
      using r Inr by simp
    have tk: "after_embedding w1 (take i ts) = after_embedding w (take (Suc i) (t # ts))" for i
      by (simp add: w1 after_embedding_append)
    show ?thesis
    proof
      assume "embed_loop env (t # ts) acc w = (Inr vecs, w')"
      then obtain vs where vs: "vecs = (acc @ [v]) @ vs" "length vs = length ts"
          "w' = after_embedding w1 ts"
          "\<forall>i<length ts. fst (embed_one env (ts ! i) (after_embedding w1 (take i ts))) = Inr (vs ! i)"
        using Cons.IH[of "acc @ [v]" w1 vecs] step by auto
      have "\<forall>i<length (t # ts). fst (embed_one env ((t # ts) ! i) (after_embedding w (take i (t # ts)))) = Inr ((v # vs) ! i)"
      proof (intro allI impI)
        fix i assume "i < length (t # ts)"
        then show "fst (embed_one env ((t # ts) ! i) (after_embedding w (take i (t # ts)))) = Inr ((v # vs) ! i)"
          using vs(4) r Inr by (cases i) (auto simp: after_embedding_Nil tk)
      qed
      then show "\<exists>vs. vecs = acc @ vs \<and> length vs = length (t # ts) \<and> w' = after_embedding w (t # ts) \<and>
        (\<forall>i<length (t # ts). fst (embed_one env ((t # ts) ! i) (after_embedding w (take i (t # ts)))) = Inr (vs ! i))"
        using vs(1,2,3) by (intro exI[of _ "v # vs"]) (simp add: w1 after_embedding_append)
    next
      assume "\<exists>vs. vecs = acc @ vs \<and> length vs = length (t # ts) \<and> w' = after_embedding w (t # ts) \<and>
        (\<forall>i<length (t # ts). fst (embed_one env ((t # ts) ! i) (after_embedding w (take i (t # ts)))) = Inr (vs ! i))"
      then obtain vs where vs: "vecs = acc @ vs" "length vs = length (t # ts)" "w' = after_embedding w (t # ts)"
        and all: "\<forall>i<length (t # ts). fst (embed_one env ((t # ts) ! i) (after_embedding w (take i (t # ts)))) = Inr (vs ! i)"
        by blast
      obtain v0 vs' where vs': "vs = v0 # vs'" using vs(2) by (cases vs) auto
      have "v0 = v" using all[rule_format, of 0] r Inr vs' by (simp add: after_embedding_Nil)
      have "\<forall>i<length ts. fst (embed_one env (ts ! i) (after_embedding w1 (take i ts))) = Inr (vs' ! i)"
      proof (intro allI impI)
        fix i assume "i < length ts"
        then show "fst (embed_one env (ts ! i) (after_embedding w1 (take i ts))) = Inr (vs' ! i)"
          using all[rule_format, of "Suc i"] vs' by (simp add: tk)
      qed
      then have "embed_loop env ts (acc @ [v]) w1 = (Inr vecs, w')"
        using Cons.IH[of "acc @ [v]" w1 vecs] vs vs' \<open>v0 = v\<close>
        by (auto simp: w1 after_embedding_append)
      then show "embed_loop env (t # ts) acc w = (Inr vecs, w')" using step by simp
    qed
  qed
qed

lemma embed_texts_Inr:
  "embed_texts env texts w = (Inr vecs, w') \<longleftrightarrow>
     (length vecs = length texts \<and> w' = after_embedding w texts \<and>
        (\<forall>i<length texts. fst (embed_one env (texts ! i) (after_embedding w (take i texts))) = Inr (vecs ! i)))"
  by (simp add: embed_texts_def embed_loop_Inr)

text \<open>The first call that fails ends the loop with its exception, after that call.\<close>

lemma embed_loop_Inl:
  assumes "i < length ts"
    and "\<forall>j<i. \<exists>v. fst (embed_one env (ts ! j) (after_embedding w (take j ts))) = Inr v"
    and "fst (embed_one env (ts ! i) (after_embedding w (take i ts))) = Inl e"
  shows "embed_loop env ts acc w = (Inl e, after_embedding w (take (Suc i) ts))"
  using assms
proof (induction ts arbitrary: i acc w)
  case Nil
  then show ?case by simp
next
  case (Cons t ts)
  obtain r w1 where r: "embed_one env t w = (r, w1)" by (cases "embed_one env t w")
  have w1: "w1 = after_embedding w [t]" using snd_embed_one[of env t w] r by simp
  show ?case
  proof (cases i)
    case 0
    then show ?thesis using Cons.prems(3) r w1 by (simp add: after_embedding_Nil)
  next
    case (Suc k)
    from Cons.prems(2)[rule_format, of 0] Suc obtain v where v: "r = Inr v"
      using r by (auto simp: after_embedding_Nil)
    have tk: "after_embedding w1 (take j ts) = after_embedding w (take (Suc j) (t # ts))" for j
      by (simp add: w1 after_embedding_append)
    have "\<forall>j<k. \<exists>v. fst (embed_one env (ts ! j) (after_embedding w1 (take j ts))) = Inr v"
    proof (intro allI impI)
      fix j assume "j < k"
      then show "\<exists>v. fst (embed_one env (ts ! j) (after_embedding w1 (take j ts))) = Inr v"
        using Cons.prems(2)[rule_format, of "Suc j"] Suc by (simp add: tk)
    qed
    moreover have "fst (embed_one env (ts ! k) (after_embedding w1 (take k ts))) = Inl e"
      using Cons.prems(3) Suc by (simp add: tk)
    moreover have "k < length ts" using Cons.prems(1) Suc by simp
    ultimately have "embed_loop env ts (acc @ [v]) w1 = (Inl e, after_embedding w1 (take (Suc k) ts))"
      using Cons.IH[of k w1 "acc @ [v]"] by blast
    then show ?thesis using r v Suc by (simp add: tk)
  qed
qed

lemmas demo_defs =
  demo_env_def demo_bedrock_def demo_embedding_def demo_answer_def demo_similarity_def
  demo_reader_def world0_def EMBED_MODEL_def LLM_MODEL_def embed_body_def

lemmas embed_defs = embed_texts_def embed_one_def invoke_model_def after_embedding_def

text \<open>
  C3. Whenever \<open>embed_texts\<close> returns, the list it returns has the length of the input,
  and its entry at position \<open>i\<close> is what the embedding call for the text at position
  \<open>i\<close> yields (made after the calls for the texts before it); and it returns whenever
  every one of these calls yields a value.
\<close>

theorem embed_texts_same_length_and_order:
  "(\<exists>w'. embed_texts env texts w = (Inr vecs, w')) \<longleftrightarrow>
     (length vecs = length texts \<and>
      (\<forall>i<length texts.
          fst (embed_one env (texts ! i) (after_embedding w (take i texts))) = Inr (vecs ! i)))"
  by (auto simp: embed_texts_Inr)

theorem embed_texts_same_length_and_order_witness:
  "embed_texts (demo_env [] demo_answer) [''a'', ''bcd''] world0 =
     (Inr [JArr [JNum 1], JArr [JNum 3]], after_embedding world0 [''a'', ''bcd''])
   \<and> length [JArr [JNum 1], JArr [JNum 3]] = length [''a'', ''bcd'']
   \<and> fst (embed_one (demo_env [] demo_answer) ''bcd'' (after_embedding world0 [''a'']))
       = Inr (JArr [JNum 3])"
proof -
  have run: "embed_texts (demo_env [] demo_answer) [''a'', ''bcd''] world0 =
     (Inr [JArr [JNum 1], JArr [JNum 3]], after_embedding world0 [''a'', ''bcd''])"
    by (simp add: embed_defs demo_defs)
  then have "\<exists>w'. embed_texts (demo_env [] demo_answer) [''a'', ''bcd''] world0 =
     (Inr [JArr [JNum 1], JArr [JNum 3]], w')" by blast
  from embed_texts_same_length_and_order [THEN iffD1, OF this]
  have "length [JArr [JNum 1], JArr [JNum 3]] = length [''a'', ''bcd'']"
    and "\<forall>i<length [''a'', ''bcd'']. fst (embed_one (demo_env [] demo_answer) ([''a'', ''bcd''] ! i)
            (after_embedding world0 (take i [''a'', ''bcd'']))) = Inr ([JArr [JNum 1], JArr [JNum 3]] ! i)"
    by blast+
  from this(1) this(2)[rule_format, of 1] run show ?thesis by simp
qed

text \<open>
  C4 (the claim as stated fails). The client's exception at index 0 of one batch and at
  index 1 of another is the same value: the error \<open>embed_texts\<close> fails with is the
  exception of the call, and the index of the failing text cannot be read from it.
\<close>

theorem embed_texts_error_has_no_index:
  "fst (embed_texts (demo_env [] demo_answer) [''boom'', ''a''] world0)
     = Inl (ClientError ''ValidationException'')
   \<and> fst (embed_texts (demo_env [] demo_answer) [''a'', ''boom''] world0)
     = Inl (ClientError ''ValidationException'')"
  by (simp add: embed_defs demo_defs)

text \<open>
  C4 (amended). If the call for the text at index \<open>i\<close> raises \<open>e\<close>, the calls for the
  texts before it having yielded values, then \<open>embed_texts\<close> fails with \<open>e\<close> itself,
  after the call for index \<open>i\<close> and before any call for a later text; it returns no list.
\<close>

theorem embed_texts_failure_propagates:
  assumes "i < length texts"
    and "\<forall>j<i. \<exists>v. fst (embed_one env (texts ! j) (after_embedding w (take j texts))) = Inr v"
    and "fst (embed_one env (texts ! i) (after_embedding w (take i texts))) = Inl e"
  shows "embed_texts env texts w = (Inl e, after_embedding w (take (Suc i) texts))"
  unfolding embed_texts_def using assms by (rule embed_loop_Inl)

theorem embed_texts_failure_propagates_witness:
  "(1::nat) < length [''a'', ''boom'', ''c'']
   \<and> fst (embed_one (demo_env [] demo_answer) ''a'' (after_embedding world0 [])) = Inr (JArr [JNum 1])
   \<and> fst (embed_one (demo_env [] demo_answer) ''boom'' (after_embedding world0 [''a'']))
       = Inl (ClientError ''ValidationException'')
   \<and> embed_texts (demo_env [] demo_answer) [''a'', ''boom'', ''c''] world0
       = (Inl (ClientError ''ValidationException''), after_embedding world0 [''a'', ''boom''])"
proof -
  have h1: "(1::nat) < length [''a'', ''boom'', ''c'']" by simp
  have a: "fst (embed_one (demo_env [] demo_answer) ''a'' (after_embedding world0 [])) = Inr (JArr [JNum 1])"
    by (simp add: embed_defs demo_defs)
  have h2: "\<forall>j<(1::nat). \<exists>v. fst (embed_one (demo_env [] demo_answer) ([''a'', ''boom'', ''c''] ! j)
      (after_embedding world0 (take j [''a'', ''boom'', ''c'']))) = Inr v"
    using a by simp
  have h3: "fst (embed_one (demo_env [] demo_answer) ([''a'', ''boom'', ''c''] ! 1)
      (after_embedding world0 (take 1 [''a'', ''boom'', ''c''])))
       = Inl (ClientError ''ValidationException'')"
    by (simp add: embed_defs demo_defs)
  from embed_texts_failure_propagates [OF h1 h2 h3] h1 a h3 show ?thesis by simp
qed

section \<open>What each operation leaves untouched\<close>

lemma after_embedding_fields [simp]:
  "pdf_log (after_embedding w ts) = pdf_log w"
  "store_log (after_embedding w ts) = store_log w"
  "records (after_embedding w ts) = records w"
  "steps (after_embedding w ts) = steps w"
  "bedrock_log (after_embedding w ts) = bedrock_log w @ map (\<lambda>t. (EMBED_MODEL, embed_body t)) ts"
  by (simp_all add: after_embedding_def)

lemma embed_loop_world: "\<exists>n\<le>length ts. snd (embed_loop env ts acc w) = after_embedding w (take n ts)"
proof (induction ts arbitrary: acc w)
  case Nil
  then show ?case by (simp add: after_embedding_Nil)
next
  case (Cons t ts)
  obtain r w1 where r: "embed_one env t w = (r, w1)" by (cases "embed_one env t w")
  have w1: "w1 = after_embedding w [t]" using snd_embed_one[of env t w] r by simp
  show ?case
  proof (cases r)
    case (Inl e)
    then have "snd (embed_loop env (t # ts) acc w) = after_embedding w (take 1 (t # ts))"
      using r w1 by simp
    then show ?thesis by (intro exI[of _ 1]) simp
  next
    case (Inr v)
    from Cons.IH[of "acc @ [v]" w1] obtain n where
      n: "n \<le> length ts" "snd (embed_loop env ts (acc @ [v]) w1) = after_embedding w1 (take n ts)"
      by blast
    have "snd (embed_loop env (t # ts) acc w) = after_embedding w (take (Suc n) (t # ts))"
      using r Inr n(2) by (simp add: w1 after_embedding_append)
    then show ?thesis using n(1) by (intro exI[of _ "Suc n"]) simp
  qed
qed

lemma embed_texts_world:
  "\<exists>n\<le>length texts. snd (embed_texts env texts w) = after_embedding w (take n texts)"
  unfolding embed_texts_def by (rule embed_loop_world)

lemma embed_texts_fields:
  "pdf_log (snd (embed_texts env texts w)) = pdf_log w"
  "store_log (snd (embed_texts env texts w)) = store_log w"
  "records (snd (embed_texts env texts w)) = records w"
  "steps (snd (embed_texts env texts w)) = steps w"
  using embed_texts_world[of texts env w] by auto

lemma ingest_load_fields:
  assumes "ingest_load env ev w = (r, w1)"
  shows "bedrock_log w1 = bedrock_log w" "store_log w1 = store_log w"
    "records w1 = records w" "steps w1 = steps w"
  using assms
  by (auto simp: ingest_load_def load_and_chunk_pdf_def Let_def
      split: option.splits sum.splits prod.splits)

lemma qdrant_upsert_fields:
  "bedrock_log (snd (qdrant_upsert env ids vecs payloads w)) = bedrock_log w"
  "pdf_log (snd (qdrant_upsert env ids vecs payloads w)) = pdf_log w"
  "steps (snd (qdrant_upsert env ids vecs payloads w)) = steps w"
  "store_log (snd (qdrant_upsert env ids vecs payloads w)) = store_log w @ [Upsert ids vecs payloads]"
  by (simp_all add: qdrant_upsert_def Let_def split: option.splits)

section \<open>The step executor on a step that has, or has not, succeeded\<close>

lemma step_run_cached:
  "status (step_record_of w run_id step_name) = Succeeded \<Longrightarrow>
     step_run run_id step_name fn w = (Inr (result (step_record_of w run_id step_name)), w)"
  by (simp add: step_run_def Let_def)

lemma step_run_Inr:
  "status (step_record_of w run_id step_name) \<noteq> Succeeded \<Longrightarrow> fn w = (Inr v, w') \<Longrightarrow>
     step_run run_id step_name fn w =
       (Inr v, w'\<lparr>steps := (steps w')((run_id, step_name) \<mapsto>
                   (step_record_of w run_id step_name)\<lparr>status := Succeeded, result := v\<rparr>)\<rparr>)"
  by (simp add: step_run_def Let_def)

lemma step_run_Inl:
  "status (step_record_of w run_id step_name) \<noteq> Succeeded \<Longrightarrow> fn w = (Inl e, w') \<Longrightarrow>
     step_run run_id step_name fn w =
       (Inl e, w'\<lparr>steps := (steps w')((run_id, step_name) \<mapsto>
                   (step_record_of w run_id step_name)
                     \<lparr>status := Failed, attempt := attempt (step_record_of w run_id step_name) + 1\<rparr>)\<rparr>)"
  by (simp add: step_run_def Let_def)

section \<open>Ingest\<close>

lemma ingest_upsert_no_chunks:
  assumes "store_fault env (length (store_log w)) = None"
  shows "ingest_upsert env [] sid w =
    (Inr (RAGUpsertResult 0), w\<lparr>store_log := store_log w @ [Upsert [] [] []]\<rparr>)"
  using assms
  by (simp add: ingest_upsert_def embed_texts_def qdrant_upsert_def chunk_ids_def
      chunk_payloads_def index_records_def Let_def)

text \<open>
  C10. \<open>embed_texts\<close> on the empty list returns the empty list and leaves the world as
  it is: no call is made. So \<open>_upsert\<close> on no chunk makes no call to Bedrock, hands the
  store three empty lists and returns \<open>ingested = 0\<close> (the store answering the call),
  and an ingest whose loading step yields no chunk returns \<open>ingested = 0\<close> whenever
  the executor returns what the second step computes.
\<close>

theorem ingest_of_no_chunks:
  "embed_texts env [] w0 = (Inr [], w0)
   \<and> (store_fault env (length (store_log w)) = None \<longrightarrow>
        ingest_upsert env [] sid w =
          (Inr (RAGUpsertResult 0), w\<lparr>store_log := store_log w @ [Upsert [] [] []]\<rparr>))
   \<and> (run ''load-and-chunk'' (ingest_load env ev) w = (Inr (RAGChunkAndSrc [] sid), w1)
        \<and> fst (run ''embed-and-upsert'' (ingest_upsert env [] sid) w1)
             = fst (ingest_upsert env [] sid w1)
        \<and> store_fault env (length (store_log w1)) = None \<longrightarrow>
        fst (rag_ingest_pdf env run ev w) = Inr 0)"
proof (intro conjI impI)
  show "embed_texts env [] w0 = (Inr [], w0)" by (simp add: embed_texts_def)
next
  assume "store_fault env (length (store_log w)) = None"
  then show "ingest_upsert env [] sid w =
      (Inr (RAGUpsertResult 0), w\<lparr>store_log := store_log w @ [Upsert [] [] []]\<rparr>)"
    by (rule ingest_upsert_no_chunks)
next
  assume a: "run ''load-and-chunk'' (ingest_load env ev) w = (Inr (RAGChunkAndSrc [] sid), w1)
        \<and> fst (run ''embed-and-upsert'' (ingest_upsert env [] sid) w1)
             = fst (ingest_upsert env [] sid w1)
        \<and> store_fault env (length (store_log w1)) = None"
  then have "fst (ingest_upsert env [] sid w1) = Inr (RAGUpsertResult 0)"
    by (simp add: ingest_upsert_no_chunks)
  with a have "fst (run ''embed-and-upsert'' (ingest_upsert env [] sid) w1) = Inr (RAGUpsertResult 0)"
    by simp
  then obtain w2 where "run ''embed-and-upsert'' (ingest_upsert env [] sid) w1 = (Inr (RAGUpsertResult 0), w2)"
    by (cases "run ''embed-and-upsert'' (ingest_upsert env [] sid) w1") simp
  moreover from a have "run ''load-and-chunk'' (ingest_load env ev) w = (Inr (RAGChunkAndSrc [] sid), w1)"
    by blast
  ultimately show "fst (rag_ingest_pdf env run ev w) = Inr 0"
    by (simp add: rag_ingest_pdf_def)
qed

lemmas pipeline_defs =
  rag_ingest_pdf_def ingest_load_def load_and_chunk_pdf_def ingest_upsert_def
  qdrant_upsert_def index_records_def chunk_ids_def chunk_payloads_def
  step_run_def step_record_of_def Let_def

theorem ingest_of_no_chunks_witness:
  "store_fault (demo_env [] demo_answer) (length (store_log world0)) = None
   \<and> embed_texts (demo_env [] demo_answer) [] world0 = (Inr [], world0)
   \<and> ingest_upsert (demo_env [] demo_answer) [] ''blank.pdf'' world0
       = (Inr (RAGUpsertResult 0), world0\<lparr>store_log := [Upsert [] [] []]\<rparr>)
   \<and> fst (rag_ingest_pdf (demo_env [] demo_answer) (step_run ''run-1'')
        \<lparr>data_pdf_path = Some ''blank.pdf'', data_source_id = None\<rparr> world0) = Inr 0"
proof -
  let ?env = "demo_env [] demo_answer"
  let ?ev = "\<lparr>data_pdf_path = Some ''blank.pdf'', data_source_id = None\<rparr>"
  let ?s1 = "step_run ''run-1'' ''load-and-chunk'' (ingest_load ?env ?ev) world0"
  have h0: "store_fault ?env (length (store_log world0)) = None"
    by (simp add: demo_defs)
  have f1: "fst ?s1 = Inr (RAGChunkAndSrc [] ''blank.pdf'')"
    by (simp add: pipeline_defs demo_defs)
  have h1: "?s1 = (Inr (RAGChunkAndSrc [] ''blank.pdf''), snd ?s1)"
    using f1 by (simp add: prod_eq_iff)
  have h2: "fst (step_run ''run-1'' ''embed-and-upsert'' (ingest_upsert ?env [] ''blank.pdf'') (snd ?s1))
      = fst (ingest_upsert ?env [] ''blank.pdf'' (snd ?s1))"
    by (simp add: pipeline_defs embed_texts_def demo_defs)
  have h3: "store_fault ?env (length (store_log (snd ?s1))) = None"
    by (simp add: demo_defs)
  note t = ingest_of_no_chunks [where env = ?env and w0 = world0 and w = world0
      and sid = "''blank.pdf''" and run = "step_run ''run-1''" and ev = ?ev and ?w1.0 = "snd ?s1"]
  from t h0 have "ingest_upsert ?env [] ''blank.pdf'' world0
       = (Inr (RAGUpsertResult 0), world0\<lparr>store_log := store_log world0 @ [Upsert [] [] []]\<rparr>)"
    by blast
  then have u: "ingest_upsert ?env [] ''blank.pdf'' world0
       = (Inr (RAGUpsertResult 0), world0\<lparr>store_log := [Upsert [] [] []]\<rparr>)"
    by (simp add: world0_def)
  from t have e: "embed_texts ?env [] world0 = (Inr [], world0)" by blast
  from t h1 h2 h3 have r: "fst (rag_ingest_pdf ?env (step_run ''run-1'') ?ev world0) = Inr 0"
    by blast
  from h0 e u r show ?thesis by (simp only: simp_thms)
qed

lemma length_chunk_ids [simp]: "length (chunk_ids env sid chunks) = length chunks"
  by (simp add: chunk_ids_def)

lemma length_chunk_payloads [simp]: "length (chunk_payloads sid chunks) = length chunks"
  by (simp add: chunk_payloads_def)

lemma nth_chunk_ids:
  "i < length chunks \<Longrightarrow> chunk_ids env sid chunks ! i = uuid5_url env (sid @ '':'' @ str_nat i)"
  by (simp add: chunk_ids_def)

lemma nth_chunk_payloads:
  "i < length chunks \<Longrightarrow> chunk_payloads sid chunks ! i = \<lparr>source = sid, chunk_text = chunks ! i\<rparr>"
  by (simp add: chunk_payloads_def)

lemma chunk_ids_cong_length:
  "length chunks' = length chunks \<Longrightarrow> chunk_ids env sid chunks' = chunk_ids env sid chunks"
  by (simp add: chunk_ids_def)

lemma ingest_upsert_store_log:
  assumes "embed_texts env chunks w = (Inr vecs, w1)"
  shows "store_log (snd (ingest_upsert env chunks sid w)) =
    store_log w @ [Upsert (chunk_ids env sid chunks) vecs (chunk_payloads sid chunks)]"
proof -
  have w1: "store_log w1 = store_log w"
    using embed_texts_fields(2)[of env chunks w] assms by simp
  have "snd (ingest_upsert env chunks sid w) =
      snd (qdrant_upsert env (chunk_ids env sid chunks) vecs (chunk_payloads sid chunks) w1)"
    using assms by (simp add: ingest_upsert_def split: prod.splits sum.splits)
  then show ?thesis by (simp add: qdrant_upsert_fields w1)
qed

text \<open>
  C9. Whenever the batch of chunks is embedded, \<open>_upsert\<close> hands the store three lists of
  the length of the chunk list, and at every index \<open>i\<close> the id is the one derived from
  \<open>i\<close>, the payload holds the source id and the text of chunk \<open>i\<close>, and the vector is what
  the embedding call for chunk \<open>i\<close> yielded.
\<close>

theorem ingest_upsert_order_preserved:
  assumes "embed_texts env chunks w = (Inr vecs, w1)"
  shows "store_log (snd (ingest_upsert env chunks sid w)) =
           store_log w @ [Upsert (chunk_ids env sid chunks) vecs (chunk_payloads sid chunks)]
    \<and> length (chunk_ids env sid chunks) = length chunks
    \<and> length vecs = length chunks
    \<and> length (chunk_payloads sid chunks) = length chunks
    \<and> (\<forall>i<length chunks.
          chunk_ids env sid chunks ! i = uuid5_url env (sid @ '':'' @ str_nat i)
        \<and> chunk_payloads sid chunks ! i = \<lparr>source = sid, chunk_text = chunks ! i\<rparr>
        \<and> fst (embed_one env (chunks ! i) (after_embedding w (take i chunks))) = Inr (vecs ! i))"
proof -
  from assms have len: "length vecs = length chunks"
    and nth: "\<forall>i<length chunks.
      fst (embed_one env (chunks ! i) (after_embedding w (take i chunks))) = Inr (vecs ! i)"
    by (simp_all add: embed_texts_Inr)
  show ?thesis
    using ingest_upsert_store_log[OF assms, of sid] len nth
    by (simp add: nth_chunk_ids nth_chunk_payloads)
qed

theorem ingest_upsert_order_preserved_witness:
  "embed_texts (demo_env [] demo_answer) [''Alpha.'', ''Beta gamma.''] world0
     = (Inr [JArr [JNum 6], JArr [JNum 11]], after_embedding world0 [''Alpha.'', ''Beta gamma.''])
   \<and> store_log (snd (ingest_upsert (demo_env [] demo_answer) [''Alpha.'', ''Beta gamma.''] ''doc1'' world0))
     = [Upsert [''urn:uuid:doc1:0'', ''urn:uuid:doc1:1'']
          [JArr [JNum 6], JArr [JNum 11]]
          [\<lparr>source = ''doc1'', chunk_text = ''Alpha.''\<rparr>,
           \<lparr>source = ''doc1'', chunk_text = ''Beta gamma.''\<rparr>]]"
proof -
  have run: "embed_texts (demo_env [] demo_answer) [''Alpha.'', ''Beta gamma.''] world0
     = (Inr [JArr [JNum 6], JArr [JNum 11]], after_embedding world0 [''Alpha.'', ''Beta gamma.''])"
    by (simp add: embed_defs demo_defs)
  have ids: "chunk_ids (demo_env [] demo_answer) ''doc1'' [''Alpha.'', ''Beta gamma.'']
      = [''urn:uuid:doc1:0'', ''urn:uuid:doc1:1'']"
    by (simp add: chunk_ids_def demo_env_def upt_rec str_nat.simps digit_char_def)
  have pls: "chunk_payloads ''doc1'' [''Alpha.'', ''Beta gamma.'']
      = [\<lparr>source = ''doc1'', chunk_text = ''Alpha.''\<rparr>,
         \<lparr>source = ''doc1'', chunk_text = ''Beta gamma.''\<rparr>]"
    by (simp add: chunk_payloads_def upt_rec)
  from ingest_upsert_order_preserved [OF run, of "''doc1''"] run ids pls
  show ?thesis by (simp add: world0_def)
qed

section \<open>Writing to the store under ids that are already there\<close>

lemma put_record_ids:
  "map rec_id (put_record r xs) =
     (if rec_id r \<in> set (map rec_id xs) then map rec_id xs else map rec_id xs @ [rec_id r])"
  by (induction xs) auto

lemma fold_put_record_ids_set:
  "set (map rec_id (fold put_record rs xs)) = set (map rec_id rs) \<union> set (map rec_id xs)"
proof (induction rs arbitrary: xs)
  case Nil
  then show ?case by simp
next
  case (Cons r rs)
  have "set (map rec_id (put_record r xs)) = insert (rec_id r) (set (map rec_id xs))"
    by (auto simp: put_record_ids)
  then show ?case using Cons.IH[of "put_record r xs"] by auto
qed

lemma fold_put_record_ids_known:
  "set (map rec_id rs) \<subseteq> set (map rec_id xs) \<Longrightarrow>
     map rec_id (fold put_record rs xs) = map rec_id xs"
proof (induction rs arbitrary: xs)
  case Nil
  then show ?case by simp
next
  case (Cons r rs)
  then have "map rec_id (put_record r xs) = map rec_id xs"
    by (simp add: put_record_ids)
  then show ?case using Cons.IH[of "put_record r xs"] Cons.prems by simp
qed

lemma index_records_ids:
  "length vecs = length ids \<Longrightarrow> length payloads = length ids \<Longrightarrow>
     map rec_id (index_records ids vecs payloads) = ids"
proof -
  assume l: "length vecs = length ids" "length payloads = length ids"
  have "map rec_id (index_records ids vecs payloads) = map fst (zip ids (zip vecs payloads))"
    by (simp add: index_records_def case_prod_beta)
  also have "\<dots> = ids" using l by simp
  finally show ?thesis .
qed

lemma put_record_mem: "r \<in> set (put_record r xs)"
  by (induction xs) auto

lemma put_record_keeps: "x \<in> set xs \<Longrightarrow> rec_id x \<noteq> rec_id r \<Longrightarrow> x \<in> set (put_record r xs)"
  by (induction xs) auto

lemma fold_put_record_keeps:
  "x \<in> set xs \<Longrightarrow> rec_id x \<notin> set (map rec_id rs) \<Longrightarrow> x \<in> set (fold put_record rs xs)"
proof (induction rs arbitrary: xs)
  case Nil
  then show ?case by simp
next
  case (Cons r rs)
  then have "x \<in> set (put_record r xs)" by (auto intro: put_record_keeps)
  then show ?case using Cons.IH[of "put_record r xs"] Cons.prems(2) by simp
qed

text \<open>Last write wins: a record written under an id that is written once is there afterwards.\<close>

lemma fold_put_record_mem:
  "distinct (map rec_id rs) \<Longrightarrow> r \<in> set rs \<Longrightarrow> r \<in> set (fold put_record rs xs)"
proof (induction rs arbitrary: xs)
  case Nil
  then show ?case by simp
next
  case (Cons a rs)
  show ?case
  proof (cases "r = a")
    case True
    have "a \<in> set (put_record a xs)" by (rule put_record_mem)
    moreover have "rec_id a \<notin> set (map rec_id rs)" using Cons.prems(1) by simp
    ultimately show ?thesis using True by (simp add: fold_put_record_keeps)
  next
    case False
    then have "r \<in> set rs" using Cons.prems(2) by simp
    then show ?thesis using Cons.IH[of "put_record a xs"] Cons.prems(1) by simp
  qed
qed

lemma ingest_upsert_Inr:
  assumes "ingest_upsert env chunks sid w = (Inr r, w1)"
  shows "\<exists>vecs. embed_texts env chunks w = (Inr vecs, after_embedding w chunks)
      \<and> length vecs = length chunks
      \<and> store_fault env (length (store_log w)) = None
      \<and> records w1 = fold put_record
            (index_records (chunk_ids env sid chunks) vecs (chunk_payloads sid chunks)) (records w)
      \<and> r = RAGUpsertResult (length chunks)"
proof -
  obtain e1 we where e1: "embed_texts env chunks w = (e1, we)" by (cases "embed_texts env chunks w")
  with assms obtain vecs where vecs: "e1 = Inr vecs"
    by (cases e1) (auto simp: ingest_upsert_def)
  have we: "we = after_embedding w chunks" and len: "length vecs = length chunks"
    using e1 vecs by (simp_all add: embed_texts_Inr)
  have nofault: "store_fault env (length (store_log w)) = None"
    using assms e1 vecs we
    by (auto simp: ingest_upsert_def qdrant_upsert_def Let_def split: option.splits)
  have "records w1 = fold put_record
            (index_records (chunk_ids env sid chunks) vecs (chunk_payloads sid chunks)) (records w)"
    and "r = RAGUpsertResult (length chunks)"
    using assms e1 vecs we nofault
    by (auto simp: ingest_upsert_def qdrant_upsert_def Let_def)
  then show ?thesis using e1 vecs we len nofault by blast
qed

text \<open>
  C1. The id of chunk \<open>i\<close> is the namespace hash of \<open>source_id + ":" + str(i)\<close>: it
  depends on the source id and the index only, not on the text of the chunk or on its
  vector. So ingesting a source again with as many chunks computes the same ids, every
  one of which the first ingest has stored; the store then holds the same ids in the
  same places as before: none is added, and (the ids being pairwise different) the
  records of the second ingest are the ones it holds: the later write has replaced the
  earlier one.
\<close>

theorem reingest_same_ids_no_growth:
  assumes "ingest_upsert env chunks sid w = (Inr r, w1)"
    and "records w1' = records w1"
    and "ingest_upsert env chunks' sid w1' = (Inr r', w2)"
    and "length chunks' = length chunks"
  shows "(\<forall>i<length chunks. chunk_ids env sid chunks ! i = uuid5_url env (sid @ '':'' @ str_nat i))
    \<and> chunk_ids env sid chunks' = chunk_ids env sid chunks
    \<and> set (chunk_ids env sid chunks) \<subseteq> set (map rec_id (records w1))
    \<and> map rec_id (records w2) = map rec_id (records w1)
    \<and> (distinct (chunk_ids env sid chunks) \<longrightarrow>
        (\<exists>vecs'. fst (embed_texts env chunks' w1') = Inr vecs'
           \<and> set (index_records (chunk_ids env sid chunks') vecs' (chunk_payloads sid chunks'))
                 \<subseteq> set (records w2)))"
proof -
  from ingest_upsert_Inr[OF assms(1)] obtain vecs where
    v: "length vecs = length chunks"
       "records w1 = fold put_record
            (index_records (chunk_ids env sid chunks) vecs (chunk_payloads sid chunks)) (records w)"
    by blast
  from ingest_upsert_Inr[OF assms(3)] obtain vecs' where
    e': "embed_texts env chunks' w1' = (Inr vecs', after_embedding w1' chunks')" and
    v': "length vecs' = length chunks'"
       "records w2 = fold put_record
            (index_records (chunk_ids env sid chunks') vecs' (chunk_payloads sid chunks')) (records w1')"
    by blast
  have same: "chunk_ids env sid chunks' = chunk_ids env sid chunks"
    using assms(4) by (rule chunk_ids_cong_length)
  have ids1: "map rec_id (index_records (chunk_ids env sid chunks) vecs (chunk_payloads sid chunks))
      = chunk_ids env sid chunks"
    using v(1) by (simp add: index_records_ids)
  have ids2: "map rec_id (index_records (chunk_ids env sid chunks') vecs' (chunk_payloads sid chunks'))
      = chunk_ids env sid chunks"
    using v'(1) same assms(4) by (simp add: index_records_ids)
  have stored: "set (chunk_ids env sid chunks) \<subseteq> set (map rec_id (records w1))"
    unfolding v(2) fold_put_record_ids_set ids1 by simp
  have keep: "map rec_id (records w2) = map rec_id (records w1')"
    unfolding v'(2) using stored ids2 assms(2)
    by (intro fold_put_record_ids_known) simp
  have wins: "set (index_records (chunk_ids env sid chunks') vecs' (chunk_payloads sid chunks'))
      \<subseteq> set (records w2)" if "distinct (chunk_ids env sid chunks)"
    unfolding v'(2) using that ids2 by (auto intro!: fold_put_record_mem)
  have "distinct (chunk_ids env sid chunks) \<longrightarrow>
        (\<exists>vecs'. fst (embed_texts env chunks' w1') = Inr vecs'
           \<and> set (index_records (chunk_ids env sid chunks') vecs' (chunk_payloads sid chunks'))
                 \<subseteq> set (records w2))"
    using wins e' by auto
  then show ?thesis using keep same stored assms(2) by (simp add: nth_chunk_ids)
qed

theorem reingest_same_ids_no_growth_witness:
  "fst (ingest_upsert (demo_env [] demo_answer) [''Alpha.'', ''Beta gamma.''] ''doc1'' world0)
      = Inr (RAGUpsertResult 2)
   \<and> fst (ingest_upsert (demo_env [] demo_answer) [''Changed'', ''text''] ''doc1''
        (snd (ingest_upsert (demo_env [] demo_answer) [''Alpha.'', ''Beta gamma.''] ''doc1'' world0)))
      = Inr (RAGUpsertResult 2)
   \<and> length [''Changed'', ''text''] = length [''Alpha.'', ''Beta gamma.'']
   \<and> map rec_id (records (snd (ingest_upsert (demo_env [] demo_answer) [''Changed'', ''text''] ''doc1''
        (snd (ingest_upsert (demo_env [] demo_answer) [''Alpha.'', ''Beta gamma.''] ''doc1'' world0)))))
      = [''urn:uuid:doc1:0'', ''urn:uuid:doc1:1'']"
proof -
  let ?env = "demo_env [] demo_answer"
  let ?w1 = "snd (ingest_upsert ?env [''Alpha.'', ''Beta gamma.''] ''doc1'' world0)"
  let ?w2 = "snd (ingest_upsert ?env [''Changed'', ''text''] ''doc1'' ?w1)"
  have ids: "chunk_ids ?env ''doc1'' [''Alpha.'', ''Beta gamma.''] = [''urn:uuid:doc1:0'', ''urn:uuid:doc1:1'']"
    by (simp add: chunk_ids_def demo_env_def upt_rec str_nat.simps digit_char_def)
  have first: "ingest_upsert ?env [''Alpha.'', ''Beta gamma.''] ''doc1'' world0 =
      (Inr (RAGUpsertResult 2),
       \<lparr>bedrock_log = [(EMBED_MODEL, embed_body ''Alpha.''), (EMBED_MODEL, embed_body ''Beta gamma.'')],
        pdf_log = [],
        store_log = [Upsert [''urn:uuid:doc1:0'', ''urn:uuid:doc1:1''] [JArr [JNum 6], JArr [JNum 11]]
           [\<lparr>source = ''doc1'', chunk_text = ''Alpha.''\<rparr>, \<lparr>source = ''doc1'', chunk_text = ''Beta gamma.''\<rparr>]],
        records = [\<lparr>rec_id = ''urn:uuid:doc1:0'', vector = JArr [JNum 6],
                     rec_payload = \<lparr>source = ''doc1'', chunk_text = ''Alpha.''\<rparr>\<rparr>,
                   \<lparr>rec_id = ''urn:uuid:doc1:1'', vector = JArr [JNum 11],
                     rec_payload = \<lparr>source = ''doc1'', chunk_text = ''Beta gamma.''\<rparr>\<rparr>],
        steps = Map.empty\<rparr>)"
    by (simp add: ingest_upsert_def embed_texts_def embed_one_def invoke_model_def qdrant_upsert_def
        index_records_def chunk_ids_def chunk_payloads_def Let_def upt_rec str_nat.simps digit_char_def
        demo_env_def demo_bedrock_def demo_embedding_def world0_def EMBED_MODEL_def embed_body_def)
  have f1: "fst (ingest_upsert ?env [''Alpha.'', ''Beta gamma.''] ''doc1'' world0) = Inr (RAGUpsertResult 2)"
    by (simp add: first)
  have f3: "fst (ingest_upsert ?env [''Changed'', ''text''] ''doc1'' ?w1) = Inr (RAGUpsertResult 2)"
    unfolding first
    by (simp add: ingest_upsert_def embed_texts_def embed_one_def invoke_model_def qdrant_upsert_def
        index_records_def chunk_ids_def chunk_payloads_def Let_def upt_rec str_nat.simps digit_char_def
        demo_env_def demo_bedrock_def demo_embedding_def EMBED_MODEL_def embed_body_def)
  have h1: "ingest_upsert ?env [''Alpha.'', ''Beta gamma.''] ''doc1'' world0 = (Inr (RAGUpsertResult 2), ?w1)"
    using f1 by (simp add: prod_eq_iff)
  have h3: "ingest_upsert ?env [''Changed'', ''text''] ''doc1'' ?w1 = (Inr (RAGUpsertResult 2), ?w2)"
    using f3 by (simp add: prod_eq_iff)
  have h4: "length [''Changed'', ''text''] = length [''Alpha.'', ''Beta gamma.'']" by simp
  have r1: "map rec_id (records ?w1) = [''urn:uuid:doc1:0'', ''urn:uuid:doc1:1'']"
    by (simp add: first)
  from reingest_same_ids_no_growth [OF h1 refl h3 h4]
  have "map rec_id (records ?w2) = map rec_id (records ?w1)" by blast
  with r1 f1 f3 h4 show ?thesis by (simp only: simp_thms)
qed

section \<open>Query\<close>

lemma qdrant_search_fields:
  "bedrock_log (snd (qdrant_search env qv k w)) = bedrock_log w"
  "pdf_log (snd (qdrant_search env qv k w)) = pdf_log w"
  "steps (snd (qdrant_search env qv k w)) = steps w"
  "records (snd (qdrant_search env qv k w)) = records w"
  "store_log (snd (qdrant_search env qv k w)) = store_log w @ [Search qv k]"
  by (simp_all add: qdrant_search_def Let_def split: option.splits)

lemma query_search_fields:
  "pdf_log (snd (query_search env q k w)) = pdf_log w"
  "steps (snd (query_search env q k w)) = steps w"
  "records (snd (query_search env q k w)) = records w"
proof -
  obtain r w1 where e: "embed_texts env [q] w = (r, w1)" by (cases "embed_texts env [q] w")
  have f: "pdf_log w1 = pdf_log w" "steps w1 = steps w" "records w1 = records w"
    using embed_texts_fields[of env "[q]" w] e by simp_all
  have "pdf_log (snd (query_search env q k w)) = pdf_log w
      \<and> steps (snd (query_search env q k w)) = steps w
      \<and> records (snd (query_search env q k w)) = records w"
  proof (cases r)
    case (Inl x)
    then show ?thesis using e f by (simp add: query_search_def)
  next
    case (Inr vecs)
    show ?thesis
    proof (cases vecs)
      case Nil
      then show ?thesis using e f Inr by (simp add: query_search_def)
    next
      case (Cons qv rest)
      have "snd (query_search env q k w) = snd (qdrant_search env qv k w1)"
        using e Inr Cons by (simp add: query_search_def split: prod.splits sum.splits)
      then show ?thesis using f by (simp add: qdrant_search_fields)
    qed
  qed
  then show "pdf_log (snd (query_search env q k w)) = pdf_log w"
    "steps (snd (query_search env q k w)) = steps w"
    "records (snd (query_search env q k w)) = records w"
    by simp_all
qed

lemma query_search_no_contexts:
  assumes "fst (query_search env q k w) = Inr (RAGSearchResult [] srcs)"
  shows "srcs = []"
  using assms
  by (auto simp: query_search_def qdrant_search_def Let_def
      split: prod.splits sum.splits list.splits option.splits)

lemma query_invoke_llm_eq:
  "query_invoke_llm env cb q w =
     (case bedrock env (bedrock_log w) LLM_MODEL (llm_body cb q) of
        Inl e \<Rightarrow> Inl e | Inr res \<Rightarrow> Inr (RawJson res),
      w\<lparr>bedrock_log := bedrock_log w @ [(LLM_MODEL, llm_body cb q)]\<rparr>)"
  by (simp add: query_invoke_llm_def invoke_model_def split: sum.splits)

lemma context_block_of_Nil [simp]: "context_block_of [] = []"
  by (simp add: context_block_of_def)

text \<open>What the query returns once the outcomes of its two steps are known.\<close>

lemma rag_query_pdf_ai_steps:
  assumes "data_question ev = Some q"
    and "run ''embed-and-search''
           (query_search env q (case data_top_k ev of None \<Rightarrow> 5 | Some k \<Rightarrow> k)) w
         = (Inr (RAGSearchResult contexts srcs), w1)"
    and "run ''llm-answer-bedrock''
           (query_invoke_llm env (context_block_of contexts) q) w1 = (r2, w2)"
  shows "rag_query_pdf_ai env run ev w =
     (case r2 of
        Inl e \<Rightarrow> (Inl e, w2)
      | Inr (RawJson res) \<Rightarrow>
          (case extract_answer res of
             Inl e \<Rightarrow> (Inl e, w2)
           | Inr a \<Rightarrow> (Inr \<lparr>answer = a, sources = srcs, num_contexts = length contexts\<rparr>, w2))
      | Inr _ \<Rightarrow> (Inl ValidationError, w2))"
  using assms
  by (simp add: rag_query_pdf_ai_def Let_def split: sum.splits step_value.splits)

text \<open>
  The answer expression \<^verbatim>\<open>res.get("content", [{}])[0].get("text", "").strip()\<close>,
  case by case on the response.
\<close>

lemma strip_empty_iff: "strip t = [] \<longleftrightarrow> (\<forall>c\<in>set t. is_space c)"
proof
  assume "strip t = []"
  then have a: "\<forall>c\<in>set (dropWhile is_space t). is_space c"
    by (simp add: strip_def dropWhile_eq_Nil_conv)
  have "dropWhile is_space t = []"
  proof (rule ccontr)
    assume n: "dropWhile is_space t \<noteq> []"
    then have "\<not> is_space (hd (dropWhile is_space t))" by (rule hd_dropWhile)
    moreover have "hd (dropWhile is_space t) \<in> set (dropWhile is_space t)" using n by simp
    ultimately show False using a by blast
  qed
  then show "\<forall>c\<in>set t. is_space c" by (simp add: dropWhile_eq_Nil_conv)
next
  assume "\<forall>c\<in>set t. is_space c"
  then have "dropWhile is_space t = []" by (simp add: dropWhile_eq_Nil_conv)
  then show "strip t = []" by (simp add: strip_def del: dropWhile_eq_Nil_conv)
qed

lemma extract_answer_cases:
  "extract_answer r =
     (case r of
        JObj kvs \<Rightarrow>
          (case map_of kvs ''content'' of
             None \<Rightarrow> Inr []
           | Some JNull \<Rightarrow> Inl TypeError
           | Some (JBool b) \<Rightarrow> Inl TypeError
           | Some (JNum n) \<Rightarrow> Inl TypeError
           | Some (JObj m) \<Rightarrow> Inl KeyError
           | Some (JStr []) \<Rightarrow> Inl IndexError
           | Some (JStr (c # cs)) \<Rightarrow> Inl AttributeError
           | Some (JArr []) \<Rightarrow> Inl IndexError
           | Some (JArr (JObj item # rest)) \<Rightarrow>
               (case map_of item ''text'' of
                  None \<Rightarrow> Inr []
                | Some (JStr t) \<Rightarrow> Inr (strip t)
                | Some _ \<Rightarrow> Inl AttributeError)
           | Some (JArr (_ # rest)) \<Rightarrow> Inl AttributeError)
      | _ \<Rightarrow> Inl AttributeError)"
  by (simp add: extract_answer_def strip_def split: json.splits option.splits list.splits)

lemma extract_answer_Inr_iff:
  "extract_answer r = Inr a \<longleftrightarrow>
     (\<exists>kvs. r = JObj kvs \<and>
        (map_of kvs ''content'' = None \<and> a = []
         \<or> (\<exists>item rest. map_of kvs ''content'' = Some (JArr (JObj item # rest)) \<and>
               (map_of item ''text'' = None \<and> a = []
                \<or> (\<exists>t. map_of item ''text'' = Some (JStr t) \<and> a = strip t)))))"
  unfolding extract_answer_cases
  by (auto split: json.splits option.splits list.splits)

lemma extract_answer_Inl_iff:
  "extract_answer r = Inl e \<longleftrightarrow>
     (e = AttributeError \<and>
        ((\<forall>kvs. r \<noteq> JObj kvs)
         \<or> (\<exists>kvs. r = JObj kvs \<and>
              ((\<exists>c cs. map_of kvs ''content'' = Some (JStr (c # cs)))
               \<or> (\<exists>item rest. map_of kvs ''content'' = Some (JArr (item # rest)) \<and>
                     ((\<forall>m. item \<noteq> JObj m)
                      \<or> (\<exists>m v. item = JObj m \<and> map_of m ''text'' = Some v \<and> (\<forall>t. v \<noteq> JStr t)))))))
      \<or> e = IndexError \<and>
          (\<exists>kvs. r = JObj kvs \<and>
             (map_of kvs ''content'' = Some (JArr []) \<or> map_of kvs ''content'' = Some (JStr [])))
      \<or> e = KeyError \<and> (\<exists>kvs m. r = JObj kvs \<and> map_of kvs ''content'' = Some (JObj m))
      \<or> e = TypeError \<and>
          (\<exists>kvs. r = JObj kvs \<and>
             (map_of kvs ''content'' = Some JNull
              \<or> (\<exists>b. map_of kvs ''content'' = Some (JBool b))
              \<or> (\<exists>n. map_of kvs ''content'' = Some (JNum n)))))"
  unfolding extract_answer_cases
  by (auto split: json.splits option.splits list.splits)

text \<open>
  C7 (the claim as stated fails). The answering model returns the empty object, a
  response with no answer field; the query returns successfully with the empty answer.
\<close>

theorem empty_answer_returned_as_success:
  "fst (rag_query_pdf_ai (demo_env [] (JObj [])) (step_run ''run-1'')
         \<lparr>data_question = Some ''What is X?'', data_top_k = None\<rparr> world0)
     = Inr \<lparr>answer = [], sources = [], num_contexts = 0\<rparr>"
  by (simp add: rag_query_pdf_ai_def query_search_def query_invoke_llm_def qdrant_search_def
      search_hits_def ranked_def scored_def extract_answer_def strip_def context_block_of_def llm_body_def
      user_content_def step_run_def step_record_of_def Let_def
      embed_texts_def embed_one_def invoke_model_def demo_defs)

text \<open>
  C7 (amended). The response of the answering step is not validated: the query returns
  whatever \<open>res.get("content", [{}])[0].get("text", "").strip()\<close> evaluates to, as a
  success, and fails exactly where that expression raises, with the exception it raises.
  The expression evaluates exactly when the response is an object whose content field is
  absent, or is a non-empty list whose first item is an object whose text field is absent
  or a string; the answer is then the text stripped (empty when the field is absent),
  which is empty exactly when the text is whitespace only. In every other case it raises:
  \<open>AttributeError\<close> when the response is not an object, when the content is a non-empty
  string, when the first item of the content list is not an object, or when its text is
  not a string; \<open>IndexError\<close> when the content is an empty list or the empty string;
  \<open>KeyError\<close> when the content is an object; \<open>TypeError\<close> when the content is null, a
  boolean or a number.
\<close>

theorem query_answer_not_validated:
  assumes "data_question ev = Some q"
    and "run ''embed-and-search''
           (query_search env q (case data_top_k ev of None \<Rightarrow> 5 | Some k \<Rightarrow> k)) w
         = (Inr (RAGSearchResult contexts srcs), w1)"
    and "run ''llm-answer-bedrock''
           (query_invoke_llm env (context_block_of contexts) q) w1 = (Inr (RawJson res), w2)"
  shows "rag_query_pdf_ai env run ev w =
     (case extract_answer res of
        Inl e \<Rightarrow> (Inl e, w2)
      | Inr a \<Rightarrow> (Inr \<lparr>answer = a, sources = srcs, num_contexts = length contexts\<rparr>, w2))
    \<and> (extract_answer r = Inr a \<longleftrightarrow>
         (\<exists>kvs. r = JObj kvs \<and>
            (map_of kvs ''content'' = None \<and> a = []
             \<or> (\<exists>item rest. map_of kvs ''content'' = Some (JArr (JObj item # rest)) \<and>
                   (map_of item ''text'' = None \<and> a = []
                    \<or> (\<exists>t. map_of item ''text'' = Some (JStr t) \<and> a = strip t))))))
    \<and> (strip t = [] \<longleftrightarrow> (\<forall>c\<in>set t. is_space c))
    \<and> (extract_answer r = Inl e \<longleftrightarrow>
         (e = AttributeError \<and>
            ((\<forall>kvs. r \<noteq> JObj kvs)
             \<or> (\<exists>kvs. r = JObj kvs \<and>
                  ((\<exists>c cs. map_of kvs ''content'' = Some (JStr (c # cs)))
                   \<or> (\<exists>item rest. map_of kvs ''content'' = Some (JArr (item # rest)) \<and>
                         ((\<forall>m. item \<noteq> JObj m)
                          \<or> (\<exists>m v. item = JObj m \<and> map_of m ''text'' = Some v
                                \<and> (\<forall>s. v \<noteq> JStr s)))))))
          \<or> e = IndexError \<and>
              (\<exists>kvs. r = JObj kvs \<and>
                 (map_of kvs ''content'' = Some (JArr []) \<or> map_of kvs ''content'' = Some (JStr [])))
          \<or> e = KeyError \<and> (\<exists>kvs m. r = JObj kvs \<and> map_of kvs ''content'' = Some (JObj m))
          \<or> e = TypeError \<and>
              (\<exists>kvs. r = JObj kvs \<and>
                 (map_of kvs ''content'' = Some JNull
                  \<or> (\<exists>b. map_of kvs ''content'' = Some (JBool b))
                  \<or> (\<exists>n. map_of kvs ''content'' = Some (JNum n))))))"
proof (intro conjI)
  show "rag_query_pdf_ai env run ev w =
     (case extract_answer res of
        Inl e \<Rightarrow> (Inl e, w2)
      | Inr a \<Rightarrow> (Inr \<lparr>answer = a, sources = srcs, num_contexts = length contexts\<rparr>, w2))"
    using rag_query_pdf_ai_steps[OF assms] by simp
qed (rule extract_answer_Inr_iff strip_empty_iff extract_answer_Inl_iff)+

lemmas query_defs =
  rag_query_pdf_ai_def query_search_def query_invoke_llm_def qdrant_search_def search_hits_def
  ranked_def scored_def extract_answer_def strip_def context_block_of_def llm_body_def
  user_content_def step_run_def step_record_of_def Let_def
  embed_texts_def embed_one_def invoke_model_def

theorem query_answer_not_validated_witness:
  "data_question \<lparr>data_question = Some ''What is X?'', data_top_k = Some 3\<rparr> = Some ''What is X?''
   \<and> fst (step_run ''run-1'' ''embed-and-search''
           (query_search (demo_env [] (JObj [(''content'', JArr [JObj [(''text'', JStr ''  '')]])]))
              ''What is X?''
              (case data_top_k \<lparr>data_question = Some ''What is X?'', data_top_k = Some 3\<rparr> of
                 None \<Rightarrow> 5 | Some k \<Rightarrow> k)) world0)
       = Inr (RAGSearchResult [] [])
   \<and> fst (rag_query_pdf_ai (demo_env [] (JObj [(''content'', JArr [JObj [(''text'', JStr ''  '')]])]))
           (step_run ''run-1'') \<lparr>data_question = Some ''What is X?'', data_top_k = Some 3\<rparr> world0)
       = Inr \<lparr>answer = [], sources = [], num_contexts = 0\<rparr>
   \<and> fst (rag_query_pdf_ai (demo_env [] (JObj [(''content'', JNull)]))
           (step_run ''run-1'') \<lparr>data_question = Some ''What is X?'', data_top_k = Some 3\<rparr> world0)
       = Inl TypeError"
proof -
  let ?reply = "JObj [(''content'', JArr [JObj [(''text'', JStr ''  '')]])]"
  let ?env = "demo_env [] ?reply"
  let ?ev = "\<lparr>data_question = Some ''What is X?'', data_top_k = Some 3\<rparr>"
  let ?s1 = "step_run ''run-1'' ''embed-and-search''
           (query_search ?env ''What is X?'' (case data_top_k ?ev of None \<Rightarrow> 5 | Some k \<Rightarrow> k)) world0"
  let ?s2 = "step_run ''run-1'' ''llm-answer-bedrock''
           (query_invoke_llm ?env (context_block_of []) ''What is X?'') (snd ?s1)"
  let ?bad = "JObj [(''content'', JNull)]"
  let ?envb = "demo_env [] ?bad"
  let ?b1 = "step_run ''run-1'' ''embed-and-search''
           (query_search ?envb ''What is X?'' (case data_top_k ?ev of None \<Rightarrow> 5 | Some k \<Rightarrow> k)) world0"
  let ?b2 = "step_run ''run-1'' ''llm-answer-bedrock''
           (query_invoke_llm ?envb (context_block_of []) ''What is X?'') (snd ?b1)"
  have h1: "data_question ?ev = Some ''What is X?''" by simp
  have f2: "fst ?s1 = Inr (RAGSearchResult [] [])"
    by (simp add: query_defs demo_defs)
  have h2: "?s1 = (Inr (RAGSearchResult [] []), snd ?s1)"
    using f2 by (simp add: prod_eq_iff)
  have f3: "fst ?s2 = Inr (RawJson ?reply)"
    by (simp add: query_defs demo_defs)
  have h3: "?s2 = (Inr (RawJson ?reply), snd ?s2)"
    using f3 by (simp add: prod_eq_iff)
  have g2: "fst ?b1 = Inr (RAGSearchResult [] [])"
    by (simp add: query_defs demo_defs)
  have k2: "?b1 = (Inr (RAGSearchResult [] []), snd ?b1)"
    using g2 by (simp add: prod_eq_iff)
  have g3: "fst ?b2 = Inr (RawJson ?bad)"
    by (simp add: query_defs demo_defs)
  have k3: "?b2 = (Inr (RawJson ?bad), snd ?b2)"
    using g3 by (simp add: prod_eq_iff)
  note good = query_answer_not_validated [where run = "step_run ''run-1''" and r = ?reply
      and a = "[]" and t = "''  ''", OF h1 h2 h3]
  note bad = query_answer_not_validated [where run = "step_run ''run-1''" and r = ?bad
      and e = TypeError, OF h1 k2 k3]
  have sp: "strip ''  '' = []"
    using good by (simp add: is_space_def)
  have ex: "extract_answer ?reply = Inr []"
    using good sp by simp
  have exb: "extract_answer ?bad = Inl TypeError"
    using bad by simp
  from good
  have "rag_query_pdf_ai ?env (step_run ''run-1'') ?ev world0 =
     (case extract_answer ?reply of
        Inl e \<Rightarrow> (Inl e, snd ?s2)
      | Inr a \<Rightarrow> (Inr \<lparr>answer = a, sources = [], num_contexts = length ([]::string list)\<rparr>, snd ?s2))"
    by blast
  then have r1: "fst (rag_query_pdf_ai ?env (step_run ''run-1'') ?ev world0)
       = Inr \<lparr>answer = [], sources = [], num_contexts = 0\<rparr>"
    by (simp add: ex)
  from bad
  have "rag_query_pdf_ai ?envb (step_run ''run-1'') ?ev world0 =
     (case extract_answer ?bad of
        Inl e \<Rightarrow> (Inl e, snd ?b2)
      | Inr a \<Rightarrow> (Inr \<lparr>answer = a, sources = [], num_contexts = length ([]::string list)\<rparr>, snd ?b2))"
    by blast
  then have r2: "fst (rag_query_pdf_ai ?envb (step_run ''run-1'') ?ev world0) = Inl TypeError"
    by (simp add: exb)
  from h1 f2 r1 r2 show ?thesis by (simp only: simp_thms)
qed

text \<open>
  C8. When the search step of a query retrieves no context, the query goes on to the
  answering step, handing it the function that calls the model with the prompt built
  from the empty context block; the outcome of the query is the outcome of that step,
  and a result it returns has \<open>num_contexts = 0\<close> and the sources of the search, which
  are none when the contexts are none.
\<close>

theorem query_with_no_contexts:
  assumes "data_question ev = Some q"
    and "run ''embed-and-search''
           (query_search env q (case data_top_k ev of None \<Rightarrow> 5 | Some k \<Rightarrow> k)) w
         = (Inr (RAGSearchResult [] srcs), w1)"
    and "run ''llm-answer-bedrock'' (query_invoke_llm env [] q) w1 = (r2, w2)"
  shows "rag_query_pdf_ai env run ev w =
     (case r2 of
        Inl e \<Rightarrow> (Inl e, w2)
      | Inr (RawJson res) \<Rightarrow>
          (case extract_answer res of
             Inl e \<Rightarrow> (Inl e, w2)
           | Inr a \<Rightarrow> (Inr \<lparr>answer = a, sources = srcs, num_contexts = 0\<rparr>, w2))
      | Inr _ \<Rightarrow> (Inl ValidationError, w2))
    \<and> (fst (query_search env q (case data_top_k ev of None \<Rightarrow> 5 | Some k \<Rightarrow> k) w)
          = Inr (RAGSearchResult [] srcs) \<longrightarrow> srcs = [])
    \<and> query_invoke_llm env [] q w1 =
        (case bedrock env (bedrock_log w1) LLM_MODEL (llm_body [] q) of
           Inl e \<Rightarrow> Inl e | Inr res \<Rightarrow> Inr (RawJson res),
         w1\<lparr>bedrock_log := bedrock_log w1 @ [(LLM_MODEL, llm_body [] q)]\<rparr>)"
proof -
  have s2: "run ''llm-answer-bedrock'' (query_invoke_llm env (context_block_of []) q) w1 = (r2, w2)"
    using assms(3) by simp
  have "rag_query_pdf_ai env run ev w =
     (case r2 of
        Inl e \<Rightarrow> (Inl e, w2)
      | Inr (RawJson res) \<Rightarrow>
          (case extract_answer res of
             Inl e \<Rightarrow> (Inl e, w2)
           | Inr a \<Rightarrow> (Inr \<lparr>answer = a, sources = srcs, num_contexts = 0\<rparr>, w2))
      | Inr _ \<Rightarrow> (Inl ValidationError, w2))"
    using rag_query_pdf_ai_steps[OF assms(1,2) s2]
    by (simp split: sum.splits step_value.splits)
  then show ?thesis
    by (simp add: query_invoke_llm_eq query_search_no_contexts)
qed

theorem query_with_no_contexts_witness:
  "data_question \<lparr>data_question = Some ''What is X?'', data_top_k = None\<rparr> = Some ''What is X?''
   \<and> fst (step_run ''run-1'' ''embed-and-search''
          (query_search (demo_env [] demo_answer) ''What is X?''
             (case data_top_k \<lparr>data_question = Some ''What is X?'', data_top_k = None\<rparr> of
                None \<Rightarrow> 5 | Some k \<Rightarrow> k)) world0)
       = Inr (RAGSearchResult [] [])
   \<and> fst (rag_query_pdf_ai (demo_env [] demo_answer) (step_run ''run-1'')
           \<lparr>data_question = Some ''What is X?'', data_top_k = None\<rparr> world0)
       = Inr \<lparr>answer = ''Paris.'', sources = [], num_contexts = 0\<rparr>"
proof -
  let ?env = "demo_env [] demo_answer"
  let ?ev = "\<lparr>data_question = Some ''What is X?'', data_top_k = None\<rparr>"
  let ?s1 = "step_run ''run-1'' ''embed-and-search''
          (query_search ?env ''What is X?'' (case data_top_k ?ev of None \<Rightarrow> 5 | Some k \<Rightarrow> k)) world0"
  let ?s2 = "step_run ''run-1'' ''llm-answer-bedrock'' (query_invoke_llm ?env [] ''What is X?'') (snd ?s1)"
  have h1: "data_question ?ev = Some ''What is X?''" by simp
  have f2: "fst ?s1 = Inr (RAGSearchResult [] [])"
    by (simp add: query_defs demo_defs)
  have h2: "?s1 = (Inr (RAGSearchResult [] []), snd ?s1)"
    using f2 by (simp add: prod_eq_iff)
  have f3: "fst ?s2 = Inr (RawJson demo_answer)"
    by (simp add: query_defs demo_defs)
  have h3: "?s2 = (Inr (RawJson demo_answer), snd ?s2)"
    using f3 by (simp add: prod_eq_iff)
  have ex: "extract_answer demo_answer = Inr ''Paris.''"
    by (simp add: extract_answer_def strip_def is_space_def demo_answer_def)
  from query_with_no_contexts [where run = "step_run ''run-1''", OF h1 h2 h3]
  have "rag_query_pdf_ai ?env (step_run ''run-1'') ?ev world0 =
     (case extract_answer demo_answer of
        Inl e \<Rightarrow> (Inl e, snd ?s2)
      | Inr a \<Rightarrow> (Inr \<lparr>answer = a, sources = [], num_contexts = 0\<rparr>, snd ?s2))"
    by simp
  then have "fst (rag_query_pdf_ai ?env (step_run ''run-1'') ?ev world0)
       = Inr \<lparr>answer = ''Paris.'', sources = [], num_contexts = 0\<rparr>"
    by (simp add: ex)
  with h1 f2 show ?thesis by (simp only: simp_thms)
qed

section \<open>Search\<close>

lemma ranked_sorted: "sorted_wrt (\<lambda>a b. hit_score b \<le> hit_score a) (ranked env qv recs)"
proof -
  have "sorted (map hit_score (sort_key hit_score (scored env qv recs)))"
    by (rule sorted_sort_key)
  then have "sorted_wrt (\<lambda>a b. hit_score a \<le> hit_score b) (sort_key hit_score (scored env qv recs))"
    by (simp add: sorted_map)
  then show ?thesis by (simp add: ranked_def sorted_wrt_rev)
qed

lemma ranked_mset: "mset (ranked env qv recs) = mset (scored env qv recs)"
  by (simp add: ranked_def)

lemma ranked_length: "length (ranked env qv recs) = length recs"
  by (simp add: ranked_def scored_def)

lemma qdrant_search_Inr:
  assumes "qdrant_search env qv k w = (Inr found, w')"
  shows "found = (map fst (search_hits env qv k (records w)),
                  map (\<lambda>h. fst (snd h)) (search_hits env qv k (records w)))"
  using assms by (auto simp: qdrant_search_def Let_def split: option.splits)

lemma query_search_Inr:
  assumes "query_search env q k w = (Inr (RAGSearchResult contexts srcs), w')"
  shows "\<exists>qv hits. fst (embed_texts env [q] w) = Inr [qv]
      \<and> hits = search_hits env qv k (records w)
      \<and> contexts = map fst hits \<and> srcs = map (\<lambda>h. fst (snd h)) hits"
proof -
  obtain r w1 where e: "embed_texts env [q] w = (r, w1)" by (cases "embed_texts env [q] w")
  from assms e obtain vecs where r: "r = Inr vecs"
    by (cases r) (auto simp: query_search_def)
  have "length vecs = length [q]" using e r by (simp add: embed_texts_Inr)
  then obtain qv where vecs: "vecs = [qv]" by (cases vecs) auto
  have rec: "records w1 = records w"
    using embed_texts_fields(3)[of env "[q]" w] e by simp
  obtain s w2 where s: "qdrant_search env qv k w1 = (s, w2)" by (cases "qdrant_search env qv k w1")
  from assms e r vecs s obtain found where found: "s = Inr found"
    "contexts = fst found" "srcs = snd found"
    by (cases s) (auto simp: query_search_def)
  have "found = (map fst (search_hits env qv k (records w)),
                 map (\<lambda>h. fst (snd h)) (search_hits env qv k (records w)))"
    using qdrant_search_Inr[of env qv k w1 found w2] s found(1) rec by simp
  then show ?thesis using e r vecs found by auto
qed

text \<open>
  C6. The search of a query returns at most \<open>top_k\<close> hits, ranked by non-increasing
  score, and the contexts and sources it hands on are these hits' texts and sources in
  that order; when the store holds no more than \<open>top_k\<close> records the hits are exactly
  the stored records, each with its score.
\<close>

theorem search_at_most_top_k_ranked:
  assumes "1 \<le> k"
    and "query_search env q k w = (Inr (RAGSearchResult contexts srcs), w')"
  shows "\<exists>qv hits. fst (embed_texts env [q] w) = Inr [qv]
      \<and> contexts = map fst hits \<and> srcs = map (\<lambda>h. fst (snd h)) hits
      \<and> length hits \<le> nat k
      \<and> sorted_wrt (\<lambda>a b. hit_score b \<le> hit_score a) hits
      \<and> mset hits \<subseteq># mset (scored env qv (records w))
      \<and> (length (records w) \<le> nat k \<longrightarrow> mset hits = mset (scored env qv (records w)))"
proof -
  from query_search_Inr[OF assms(2)] obtain qv hits where
    h: "fst (embed_texts env [q] w) = Inr [qv]"
       "hits = take (nat k) (ranked env qv (records w))"
       "contexts = map fst hits" "srcs = map (\<lambda>h. fst (snd h)) hits"
    unfolding search_hits_def by blast
  have len: "length hits \<le> nat k" using h(2) by simp
  have srt: "sorted_wrt (\<lambda>a b. hit_score b \<le> hit_score a) hits"
    unfolding h(2) using ranked_sorted[of env qv "records w"] by (rule sorted_wrt_take)
  have "mset (take (nat k) (ranked env qv (records w))) \<subseteq># mset (ranked env qv (records w))"
    by (metis append_take_drop_id mset_append mset_subset_eq_add_left)
  then have sub: "mset hits \<subseteq># mset (scored env qv (records w))"
    using h(2) by (simp add: ranked_mset)
  have all: "mset hits = mset (scored env qv (records w))" if "length (records w) \<le> nat k"
    using that h(2) by (simp add: ranked_length ranked_mset)
  show ?thesis using h(1,3,4) len srt sub all by blast
qed

theorem search_at_most_top_k_ranked_witness:
  "(1::int) \<le> 2
   \<and> fst (query_search (demo_env [] demo_answer) ''What is?'' 2
        (world0\<lparr>records :=
           [\<lparr>rec_id = ''c'', vector = JArr [JNum 2], rec_payload = \<lparr>source = ''doc2'', chunk_text = ''Zed''\<rparr>\<rparr>,
            \<lparr>rec_id = ''b'', vector = JArr [JNum 11], rec_payload = \<lparr>source = ''doc1'', chunk_text = ''Beta gamma.''\<rparr>\<rparr>,
            \<lparr>rec_id = ''a'', vector = JArr [JNum 6], rec_payload = \<lparr>source = ''doc1'', chunk_text = ''Alpha.''\<rparr>\<rparr>]\<rparr>))
       = Inr (RAGSearchResult [''Alpha.'', ''Beta gamma.''] [''doc1'', ''doc1''])
   \<and> length [''Alpha.'', ''Beta gamma.''] \<le> nat 2"
proof -
  let ?w = "world0\<lparr>records :=
           [\<lparr>rec_id = ''c'', vector = JArr [JNum 2], rec_payload = \<lparr>source = ''doc2'', chunk_text = ''Zed''\<rparr>\<rparr>,
            \<lparr>rec_id = ''b'', vector = JArr [JNum 11], rec_payload = \<lparr>source = ''doc1'', chunk_text = ''Beta gamma.''\<rparr>\<rparr>,
            \<lparr>rec_id = ''a'', vector = JArr [JNum 6], rec_payload = \<lparr>source = ''doc1'', chunk_text = ''Alpha.''\<rparr>\<rparr>]\<rparr>"
  let ?qs = "query_search (demo_env [] demo_answer) ''What is?'' 2 ?w"
  have h1: "(1::int) \<le> 2" by simp
  have f2: "fst ?qs = Inr (RAGSearchResult [''Alpha.'', ''Beta gamma.''] [''doc1'', ''doc1''])"
    by (simp add: query_search_def qdrant_search_def search_hits_def ranked_def scored_def
        hit_score_def Let_def
        embed_texts_def embed_one_def invoke_model_def demo_defs)
  have h2: "?qs = (Inr (RAGSearchResult [''Alpha.'', ''Beta gamma.''] [''doc1'', ''doc1'']), snd ?qs)"
    using f2 by (simp add: prod_eq_iff)
  from search_at_most_top_k_ranked [OF h1 h2]
  obtain hits :: "(string \<times> string \<times> rat) list" where
    "[''Alpha.'', ''Beta gamma.''] = map fst hits" "length hits \<le> nat 2"
    by (elim exE conjE) (rule that, assumption+)
  then have "length [''Alpha.'', ''Beta gamma.''] \<le> nat 2"
    by (metis length_map)
  with h1 f2 show ?thesis by (simp only: simp_thms)
qed

section \<open>Retrying a run\<close>

lemma step_run_result_status:
  assumes "step_run run_id step_name fn w = (Inr v, w')"
  shows "status (step_record_of w' run_id step_name) = Succeeded
    \<and> result (step_record_of w' run_id step_name) = v"
proof (cases "status (step_record_of w run_id step_name) = Succeeded")
  case True
  then show ?thesis using assms by (auto simp: step_run_cached)
next
  case False
  obtain r wf where f: "fn w = (r, wf)" by (cases "fn w")
  show ?thesis
  proof (cases r)
    case (Inl e)
    then show ?thesis using step_run_Inl[OF False, of fn e wf] f assms by simp
  next
    case (Inr u)
    then show ?thesis using step_run_Inr[OF False, of fn u wf] f assms
      by (auto simp: step_record_of_def)
  qed
qed

text \<open>
  Whatever a step does, running it under the executor changes the step records at its
  own key only, and changes nothing else that its function leaves alone.
\<close>

lemma step_run_frame:
  assumes "\<And>u s. g (u\<lparr>steps := s\<rparr>) = g u"
    and "g (snd (fn w)) = g w"
  shows "g (snd (step_run run_id step_name fn w)) = g w"
proof (cases "status (step_record_of w run_id step_name) = Succeeded")
  case True
  then show ?thesis by (simp add: step_run_cached)
next
  case False
  obtain r wf where f: "fn w = (r, wf)" by (cases "fn w")
  show ?thesis
  proof (cases r)
    case (Inl e)
    then show ?thesis using step_run_Inl[OF False, of fn e wf] f assms by simp
  next
    case (Inr u)
    then show ?thesis using step_run_Inr[OF False, of fn u wf] f assms by simp
  qed
qed

lemma step_run_keeps_other:
  assumes "steps (snd (fn w)) = steps w" and "name' \<noteq> name"
  shows "step_record_of (snd (step_run run_id name' fn w)) run_id name = step_record_of w run_id name"
proof (cases "status (step_record_of w run_id name') = Succeeded")
  case True
  then show ?thesis by (simp add: step_run_cached)
next
  case False
  obtain r wf where f: "fn w = (r, wf)" by (cases "fn w")
  have wf: "steps wf = steps w" using assms(1) f by simp
  show ?thesis
  proof (cases r)
    case (Inl e)
    then show ?thesis using step_run_Inl[OF False, of fn e wf] f assms(2) wf
      by (simp add: step_record_of_def)
  next
    case (Inr u)
    then show ?thesis using step_run_Inr[OF False, of fn u wf] f assms(2) wf
      by (simp add: step_record_of_def)
  qed
qed

lemma ingest_upsert_fields:
  "pdf_log (snd (ingest_upsert env chunks sid w)) = pdf_log w"
  "steps (snd (ingest_upsert env chunks sid w)) = steps w"
proof -
  obtain r w1 where e: "embed_texts env chunks w = (r, w1)" by (cases "embed_texts env chunks w")
  have f: "pdf_log w1 = pdf_log w" "steps w1 = steps w"
    using embed_texts_fields[of env chunks w] e by simp_all
  have "pdf_log (snd (ingest_upsert env chunks sid w)) = pdf_log w
      \<and> steps (snd (ingest_upsert env chunks sid w)) = steps w"
  proof (cases r)
    case (Inl x)
    then show ?thesis using e f by (simp add: ingest_upsert_def)
  next
    case (Inr vecs)
    have "snd (ingest_upsert env chunks sid w) =
        snd (qdrant_upsert env (chunk_ids env sid chunks) vecs (chunk_payloads sid chunks) w1)"
      using e Inr by (simp add: ingest_upsert_def split: prod.splits sum.splits)
    then show ?thesis using f by (simp add: qdrant_upsert_fields)
  qed
  then show "pdf_log (snd (ingest_upsert env chunks sid w)) = pdf_log w"
    "steps (snd (ingest_upsert env chunks sid w)) = steps w"
    by simp_all
qed

lemma query_invoke_llm_fields:
  "pdf_log (snd (query_invoke_llm env cb q w)) = pdf_log w"
  "steps (snd (query_invoke_llm env cb q w)) = steps w"
  "store_log (snd (query_invoke_llm env cb q w)) = store_log w"
  "bedrock_log (snd (query_invoke_llm env cb q w)) = bedrock_log w @ [(LLM_MODEL, llm_body cb q)]"
  by (simp_all add: query_invoke_llm_eq)

lemma LLM_MODEL_neq: "LLM_MODEL \<noteq> EMBED_MODEL"
  by (simp add: LLM_MODEL_def EMBED_MODEL_def)

subsection \<open>Ingest\<close>

lemma ingest_keeps_step1:
  assumes "step_run run_id ''load-and-chunk'' (ingest_load env ev) w = (Inr v, wa)"
  shows "step_record_of (snd (rag_ingest_pdf env (step_run run_id) ev w)) run_id ''load-and-chunk''
    = step_record_of wa run_id ''load-and-chunk''"
proof (cases v)
  case (RAGChunkAndSrc chunks sid)
  let ?s2 = "step_run run_id ''embed-and-upsert'' (ingest_upsert env chunks sid) wa"
  have "snd (rag_ingest_pdf env (step_run run_id) ev w) = snd ?s2"
    using assms RAGChunkAndSrc
    by (simp add: rag_ingest_pdf_def split: prod.splits sum.splits step_value.splits)
  moreover have "step_record_of (snd ?s2) run_id ''load-and-chunk''
      = step_record_of wa run_id ''load-and-chunk''"
    by (rule step_run_keeps_other) (simp_all add: ingest_upsert_fields)
  ultimately show ?thesis by simp
qed (use assms in \<open>simp_all add: rag_ingest_pdf_def\<close>)

lemma ingest_retry_reads_nothing:
  assumes "status (step_record_of w1 run_id ''load-and-chunk'') = Succeeded"
  shows "pdf_log (snd (rag_ingest_pdf env' (step_run run_id) ev' w1)) = pdf_log w1"
proof -
  let ?v = "result (step_record_of w1 run_id ''load-and-chunk'')"
  have s1: "step_run run_id ''load-and-chunk'' (ingest_load env' ev') w1 = (Inr ?v, w1)"
    using assms by (rule step_run_cached)
  show ?thesis
  proof (cases ?v)
    case (RAGChunkAndSrc chunks sid)
    let ?s2 = "step_run run_id ''embed-and-upsert'' (ingest_upsert env' chunks sid) w1"
    have "snd (rag_ingest_pdf env' (step_run run_id) ev' w1) = snd ?s2"
      using s1 RAGChunkAndSrc
      by (simp add: rag_ingest_pdf_def split: prod.splits sum.splits step_value.splits)
    moreover have "pdf_log (snd ?s2) = pdf_log w1"
      by (rule step_run_frame) (simp_all add: ingest_upsert_fields)
    ultimately show ?thesis by simp
  qed (use s1 in \<open>simp_all add: rag_ingest_pdf_def\<close>)
qed

subsection \<open>Query\<close>

lemma query_keeps_step1:
  assumes "data_question ev = Some q"
    and "step_run run_id ''embed-and-search''
           (query_search env q (case data_top_k ev of None \<Rightarrow> 5 | Some k \<Rightarrow> k)) w = (Inr v, wa)"
  shows "step_record_of (snd (rag_query_pdf_ai env (step_run run_id) ev w)) run_id ''embed-and-search''
    = step_record_of wa run_id ''embed-and-search''"
proof (cases v)
  case (RAGSearchResult contexts srcs)
  let ?s2 = "step_run run_id ''llm-answer-bedrock''
               (query_invoke_llm env (context_block_of contexts) q) wa"
  have "snd (rag_query_pdf_ai env (step_run run_id) ev w) = snd ?s2"
    using assms RAGSearchResult
    by (simp add: rag_query_pdf_ai_def Let_def split: prod.splits sum.splits step_value.splits)
  moreover have "step_record_of (snd ?s2) run_id ''embed-and-search''
      = step_record_of wa run_id ''embed-and-search''"
    by (rule step_run_keeps_other) (simp_all add: query_invoke_llm_fields)
  ultimately show ?thesis by simp
qed (use assms in \<open>simp_all add: rag_query_pdf_ai_def Let_def\<close>)

lemma query_retry_searches_nothing:
  assumes "status (step_record_of w1 run_id ''embed-and-search'') = Succeeded"
  shows "store_log (snd (rag_query_pdf_ai env' (step_run run_id) ev' w1)) = store_log w1
    \<and> filter (\<lambda>c. fst c = EMBED_MODEL) (bedrock_log (snd (rag_query_pdf_ai env' (step_run run_id) ev' w1)))
        = filter (\<lambda>c. fst c = EMBED_MODEL) (bedrock_log w1)"
proof (cases "data_question ev'")
  case None
  then show ?thesis by (simp add: rag_query_pdf_ai_def)
next
  case (Some q')
  let ?K = "case data_top_k ev' of None \<Rightarrow> 5 | Some k \<Rightarrow> k"
  let ?v = "result (step_record_of w1 run_id ''embed-and-search'')"
  have s1: "step_run run_id ''embed-and-search'' (query_search env' q' ?K) w1 = (Inr ?v, w1)"
    using assms by (rule step_run_cached)
  show ?thesis
  proof (cases ?v)
    case (RAGSearchResult contexts srcs)
    let ?s2 = "step_run run_id ''llm-answer-bedrock''
                 (query_invoke_llm env' (context_block_of contexts) q') w1"
    have "snd (rag_query_pdf_ai env' (step_run run_id) ev' w1) = snd ?s2"
      using s1 Some RAGSearchResult
      by (simp add: rag_query_pdf_ai_def Let_def split: prod.splits sum.splits step_value.splits)
    moreover have "store_log (snd ?s2) = store_log w1"
      by (rule step_run_frame) (simp_all add: query_invoke_llm_fields)
    moreover have "filter (\<lambda>c. fst c = EMBED_MODEL) (bedrock_log (snd ?s2))
        = filter (\<lambda>c. fst c = EMBED_MODEL) (bedrock_log w1)"
      by (rule step_run_frame[where g = "\<lambda>u. filter (\<lambda>c. fst c = EMBED_MODEL) (bedrock_log u)"])
         (simp_all add: query_invoke_llm_fields LLM_MODEL_neq)
    ultimately show ?thesis by simp
  qed (use s1 Some in \<open>simp_all add: rag_query_pdf_ai_def Let_def\<close>)
qed

text \<open>
  C2. A step whose record has the status succeeded returns the cached result and the
  world is left as it is, whatever the step's function is: the function is not invoked.
  So in both pipelines, once the first step has succeeded in an attempt of a run, its
  record stays succeeded with that result whatever happens in the later step, and a
  retry of the run does not invoke it again: the retry of an ingest reads no PDF, the
  retry of a query makes no embedding call and no search.
\<close>

theorem succeeded_steps_not_rerun:
  "(status (step_record_of w run_id step_name) = Succeeded \<longrightarrow>
      step_run run_id step_name fn w = (Inr (result (step_record_of w run_id step_name)), w))
   \<and> (step_run run_id ''load-and-chunk'' (ingest_load env ev) w = (Inr v, wa)
        \<and> rag_ingest_pdf env (step_run run_id) ev w = (r, w1) \<longrightarrow>
        status (step_record_of w1 run_id ''load-and-chunk'') = Succeeded
      \<and> result (step_record_of w1 run_id ''load-and-chunk'') = v
      \<and> pdf_log (snd (rag_ingest_pdf env' (step_run run_id) ev' w1)) = pdf_log w1)
   \<and> (data_question qev = Some q
        \<and> step_run run_id ''embed-and-search''
             (query_search env q (case data_top_k qev of None \<Rightarrow> 5 | Some k \<Rightarrow> k)) w = (Inr v', wb)
        \<and> rag_query_pdf_ai env (step_run run_id) qev w = (r', w2) \<longrightarrow>
        status (step_record_of w2 run_id ''embed-and-search'') = Succeeded
      \<and> result (step_record_of w2 run_id ''embed-and-search'') = v'
      \<and> store_log (snd (rag_query_pdf_ai env' (step_run run_id) qev' w2)) = store_log w2
      \<and> filter (\<lambda>c. fst c = EMBED_MODEL) (bedrock_log (snd (rag_query_pdf_ai env' (step_run run_id) qev' w2)))
          = filter (\<lambda>c. fst c = EMBED_MODEL) (bedrock_log w2))"
proof (intro conjI impI)
  assume "status (step_record_of w run_id step_name) = Succeeded"
  then show "step_run run_id step_name fn w = (Inr (result (step_record_of w run_id step_name)), w)"
    by (rule step_run_cached)
next
  assume a: "step_run run_id ''load-and-chunk'' (ingest_load env ev) w = (Inr v, wa)
        \<and> rag_ingest_pdf env (step_run run_id) ev w = (r, w1)"
  then have rec: "step_record_of w1 run_id ''load-and-chunk'' = step_record_of wa run_id ''load-and-chunk''"
    using ingest_keeps_step1[of run_id env ev w v wa] by simp
  from a have st: "status (step_record_of wa run_id ''load-and-chunk'') = Succeeded
      \<and> result (step_record_of wa run_id ''load-and-chunk'') = v"
    using step_run_result_status by blast
  show "status (step_record_of w1 run_id ''load-and-chunk'') = Succeeded" using rec st by simp
  show "result (step_record_of w1 run_id ''load-and-chunk'') = v" using rec st by simp
  show "pdf_log (snd (rag_ingest_pdf env' (step_run run_id) ev' w1)) = pdf_log w1"
    using rec st by (intro ingest_retry_reads_nothing) simp
next
  assume a: "data_question qev = Some q
        \<and> step_run run_id ''embed-and-search''
             (query_search env q (case data_top_k qev of None \<Rightarrow> 5 | Some k \<Rightarrow> k)) w = (Inr v', wb)
        \<and> rag_query_pdf_ai env (step_run run_id) qev w = (r', w2)"
  then have rec: "step_record_of w2 run_id ''embed-and-search'' = step_record_of wb run_id ''embed-and-search''"
    using query_keeps_step1[of qev q run_id env w v' wb] by simp
  from a have st: "status (step_record_of wb run_id ''embed-and-search'') = Succeeded
      \<and> result (step_record_of wb run_id ''embed-and-search'') = v'"
    using step_run_result_status by blast
  have s: "status (step_record_of w2 run_id ''embed-and-search'') = Succeeded" using rec st by simp
  show "status (step_record_of w2 run_id ''embed-and-search'') = Succeeded" by (rule s)
  show "result (step_record_of w2 run_id ''embed-and-search'') = v'" using rec st by simp
  show "store_log (snd (rag_query_pdf_ai env' (step_run run_id) qev' w2)) = store_log w2"
    using query_retry_searches_nothing[OF s] by blast
  show "filter (\<lambda>c. fst c = EMBED_MODEL) (bedrock_log (snd (rag_query_pdf_ai env' (step_run run_id) qev' w2)))
          = filter (\<lambda>c. fst c = EMBED_MODEL) (bedrock_log w2)"
    using query_retry_searches_nothing[OF s] by blast
qed

theorem succeeded_steps_not_rerun_witness:
  "fst (step_run ''run-1'' ''load-and-chunk''
          (ingest_load (demo_env [0] demo_answer)
             \<lparr>data_pdf_path = Some ''doc.pdf'', data_source_id = Some ''doc1''\<rparr>) world0)
     = Inr (RAGChunkAndSrc [''Alpha.'', ''Beta gamma.''] ''doc1'')
   \<and> fst (rag_ingest_pdf (demo_env [0] demo_answer) (step_run ''run-1'')
          \<lparr>data_pdf_path = Some ''doc.pdf'', data_source_id = Some ''doc1''\<rparr> world0)
     = Inl (ClientError ''ServiceUnavailableException'')
   \<and> pdf_log (snd (rag_ingest_pdf (demo_env [0] demo_answer) (step_run ''run-1'')
          \<lparr>data_pdf_path = Some ''doc.pdf'', data_source_id = Some ''doc1''\<rparr> world0))
     = [''doc.pdf'']
   \<and> fst (rag_ingest_pdf (demo_env [0] demo_answer) (step_run ''run-1'')
          \<lparr>data_pdf_path = Some ''doc.pdf'', data_source_id = Some ''doc1''\<rparr>
          (snd (rag_ingest_pdf (demo_env [0] demo_answer) (step_run ''run-1'')
             \<lparr>data_pdf_path = Some ''doc.pdf'', data_source_id = Some ''doc1''\<rparr> world0)))
     = Inr 2
   \<and> pdf_log (snd (rag_ingest_pdf (demo_env [0] demo_answer) (step_run ''run-1'')
          \<lparr>data_pdf_path = Some ''doc.pdf'', data_source_id = Some ''doc1''\<rparr>
          (snd (rag_ingest_pdf (demo_env [0] demo_answer) (step_run ''run-1'')
             \<lparr>data_pdf_path = Some ''doc.pdf'', data_source_id = Some ''doc1''\<rparr> world0))))
     = [''doc.pdf'']"
proof -
  let ?env = "demo_env [0] demo_answer"
  let ?ev = "\<lparr>data_pdf_path = Some ''doc.pdf'', data_source_id = Some ''doc1''\<rparr>"
  let ?s1 = "step_run ''run-1'' ''load-and-chunk'' (ingest_load ?env ?ev) world0"
  let ?a1 = "rag_ingest_pdf ?env (step_run ''run-1'') ?ev world0"
  let ?a2 = "rag_ingest_pdf ?env (step_run ''run-1'') ?ev (snd ?a1)"
  have f1: "fst ?s1 = Inr (RAGChunkAndSrc [''Alpha.'', ''Beta gamma.''] ''doc1'')"
    by (simp add: pipeline_defs demo_defs)
  have h1: "?s1 = (Inr (RAGChunkAndSrc [''Alpha.'', ''Beta gamma.''] ''doc1''), snd ?s1)"
    using f1 by (simp add: prod_eq_iff)
  have a1: "?a1 = (Inl (ClientError ''ServiceUnavailableException''),
      \<lparr>bedrock_log = [(EMBED_MODEL, embed_body ''Alpha.'')],
       pdf_log = [''doc.pdf''], store_log = [], records = [],
       steps = [(''run-1'', ''embed-and-upsert'') \<mapsto> \<lparr>status = Failed, result = NoResult, attempt = 1\<rparr>,
                (''run-1'', ''load-and-chunk'') \<mapsto>
                   \<lparr>status = Succeeded, result = RAGChunkAndSrc [''Alpha.'', ''Beta gamma.''] ''doc1'', attempt = 0\<rparr>]\<rparr>)"
    by (simp add: pipeline_defs embed_defs demo_defs fun_upd_twist)
  have f2: "fst ?a1 = Inl (ClientError ''ServiceUnavailableException'')" by (simp add: a1)
  have p1: "pdf_log (snd ?a1) = [''doc.pdf'']" by (simp add: a1)
  have h2: "?a1 = (fst ?a1, snd ?a1)" by simp
  have f3: "fst ?a2 = Inr 2"
    unfolding a1 by (simp add: pipeline_defs embed_defs demo_defs upt_rec str_nat.simps digit_char_def)
  from succeeded_steps_not_rerun [THEN conjunct2, THEN conjunct1, rule_format, OF conjI, OF h1 h2]
  have "pdf_log (snd ?a2) = pdf_log (snd ?a1)" by blast
  with f1 f2 p1 f3 show ?thesis by (simp only: simp_thms)
qed

end
